theory Spec2Isabelle
  imports Main
begin

section \<open>JavaScript values and string operations\<close>

text \<open>
  Exceptions are values. \<open>Error m\<close> is \<^verbatim>\<open>new Error(m)\<close>; \<open>TypeError\<close> is the error
  raised by a property access on \<^verbatim>\<open>undefined\<close> and by a \<^verbatim>\<open>fetch\<close> that cannot reach its
  server; \<open>ReferenceError\<close> is the use of a name that is not defined; \<open>SyntaxError\<close> is a
  response body that is not JSON. A computation that may throw has a result of type
  \<open>js_error + 'a\<close>.
\<close>

datatype js_error = Error string | TypeError | ReferenceError | SyntaxError

text \<open>\<^verbatim>\<open>try { body } catch (err) { handler }\<close>\<close>

definition try_catch :: "js_error + 'a \<Rightarrow> (js_error \<Rightarrow> 'a) \<Rightarrow> 'a" where
  "try_catch body handler = (case body of Inl err \<Rightarrow> handler err | Inr v \<Rightarrow> v)"

text \<open>
  What an awaited call comes to: it resolves with a value, it rejects with an exception,
  or it never settles, and the code after the \<^verbatim>\<open>await\<close> never runs. The same type
  stands for a body that awaits: it completes with a value, throws, or stays suspended.
\<close>

datatype 'a promise = Resolves 'a | Rejects js_error | NeverSettles

text \<open>\<^verbatim>\<open>try { body } catch (err) { handler }\<close> around a body that awaits.\<close>

definition try_catch_await :: "'a promise \<Rightarrow> (js_error \<Rightarrow> 'a) \<Rightarrow> 'a promise" where
  "try_catch_await body handler =
     (case body of
        Resolves v \<Rightarrow> Resolves v
      | Rejects err \<Rightarrow> Resolves (handler err)
      | NeverSettles \<Rightarrow> NeverSettles)"

text \<open>
  \<^verbatim>\<open>s.trim()\<close>, on the UTF-8 bytes of the string. \<open>white_space\<close> lists the encodings of
  the white space and line terminator code points of ECMAScript: U+0009 to U+000D, U+0020,
  U+00A0, U+1680, U+2000 to U+200A, U+2028, U+2029, U+202F, U+205F, U+3000 and U+FEFF.
\<close>

definition white_space :: "string list" where
  "white_space =
     [[CHR 0x09], [CHR 0x0A], [CHR 0x0B], [CHR 0x0C], [CHR 0x0D], [CHR 0x20],
      [CHR 0xC2, CHR 0xA0],
      [CHR 0xE1, CHR 0x9A, CHR 0x80],
      [CHR 0xE2, CHR 0x80, CHR 0x80], [CHR 0xE2, CHR 0x80, CHR 0x81],
      [CHR 0xE2, CHR 0x80, CHR 0x82], [CHR 0xE2, CHR 0x80, CHR 0x83],
      [CHR 0xE2, CHR 0x80, CHR 0x84], [CHR 0xE2, CHR 0x80, CHR 0x85],
      [CHR 0xE2, CHR 0x80, CHR 0x86], [CHR 0xE2, CHR 0x80, CHR 0x87],
      [CHR 0xE2, CHR 0x80, CHR 0x88], [CHR 0xE2, CHR 0x80, CHR 0x89],
      [CHR 0xE2, CHR 0x80, CHR 0x8A],
      [CHR 0xE2, CHR 0x80, CHR 0xA8], [CHR 0xE2, CHR 0x80, CHR 0xA9],
      [CHR 0xE2, CHR 0x80, CHR 0xAF],
      [CHR 0xE2, CHR 0x81, CHR 0x9F],
      [CHR 0xE3, CHR 0x80, CHR 0x80],
      [CHR 0xEF, CHR 0xBB, CHR 0xBF]]"

text \<open>The number of bytes of the white space character a string starts with, if any.\<close>

definition leading_white_space :: "string list \<Rightarrow> string \<Rightarrow> nat" where
  "leading_white_space table s =
     (case find (\<lambda>w. take (length w) s = w) table of None \<Rightarrow> 0 | Some w \<Rightarrow> length w)"

function strip_start :: "string list \<Rightarrow> string \<Rightarrow> string" where
  "strip_start table s =
     (if leading_white_space table s = 0 then s
      else strip_start table (drop (leading_white_space table s) s))"
  by pat_completeness auto
termination
proof (relation "measure (\<lambda>(table, s). length s)")
  show "wf (measure (\<lambda>(table, s). length s))"
    by simp
next
  fix table :: "string list" and s :: string
  assume pos: "leading_white_space table s \<noteq> 0"
  have "s \<noteq> []"
  proof
    assume "s = []"
    then have "leading_white_space table s = 0"
      by (auto simp: leading_white_space_def split: option.splits dest: find_Some_iff [THEN iffD1])
    with pos show False by simp
  qed
  with pos show "((table, drop (leading_white_space table s) s), (table, s))
      \<in> measure (\<lambda>(table, s). length s)"
    by simp
qed

definition js_trim :: "string \<Rightarrow> string" where
  "js_trim s = rev (strip_start (map rev white_space) (rev (strip_start white_space s)))"

text \<open>Truthiness of an optional string: \<^verbatim>\<open>undefined\<close>, \<^verbatim>\<open>null\<close> and \<^verbatim>\<open>''\<close> are falsy.\<close>

definition truthy :: "string option \<Rightarrow> bool" where
  "truthy v = (case v of None \<Rightarrow> False | Some s \<Rightarrow> s \<noteq> [])"

text \<open>The string of a truthy optional string; \<open>None\<close> for a falsy one.\<close>

definition truthy_value :: "string option \<Rightarrow> string option" where
  "truthy_value v = (case v of None \<Rightarrow> None | Some s \<Rightarrow> (if s = [] then None else Some s))"

text \<open>\<^verbatim>\<open>v || d\<close> on an optional string.\<close>

definition or_else :: "string option \<Rightarrow> string \<Rightarrow> string" where
  "or_else v d = (case v of None \<Rightarrow> d | Some s \<Rightarrow> (if s = [] then d else s))"

text \<open>
  \<^verbatim>\<open>s.split(c)\<close> for a one-character separator: the segments between the occurrences of
  \<open>c\<close>; never the empty array.
\<close>

fun js_split :: "char \<Rightarrow> string \<Rightarrow> string list" where
  "js_split c [] = [[]]"
| "js_split c (x # xs) =
     (if x = c then [] # js_split c xs
      else (case js_split c xs of [] \<Rightarrow> [[x]] | s # ss \<Rightarrow> (x # s) # ss))"

text \<open>\<^verbatim>\<open>xs[i]\<close>: \<open>None\<close> is \<^verbatim>\<open>undefined\<close>.\<close>

definition js_index :: "'a list \<Rightarrow> nat \<Rightarrow> 'a option" where
  "js_index xs i = (if i < length xs then Some (xs ! i) else None)"

text \<open>\<^verbatim>\<open>s.substring(a, b)\<close>: the arguments are swapped when \<open>a > b\<close>.\<close>

definition substring :: "nat \<Rightarrow> nat \<Rightarrow> string \<Rightarrow> string" where
  "substring a b s = take (max a b - min a b) (drop (min a b) s)"

text \<open>\<^verbatim>\<open>s.includes(sub)\<close>.\<close>

fun js_includes :: "string \<Rightarrow> string \<Rightarrow> bool" where
  "js_includes [] sub = (sub = [])"
| "js_includes (x # xs) sub = (take (length sub) (x # xs) = sub \<or> js_includes xs sub)"

section \<open>Data model (types/index.ts)\<close>

text \<open>
  The interface \<^verbatim>\<open>Event\<close>. Field \<open>eid\<close> is \<^verbatim>\<open>id\<close>; an optional field is an \<open>option\<close>.
\<close>

record Event =
  eid :: string
  title :: string
  date :: string
  startTime :: string
  endTime :: string
  description :: string
  googleEventId :: "string option"

text \<open>
  The interface \<^verbatim>\<open>GoogleEvent\<close> of the calendar service: \<open>gid\<close> is \<^verbatim>\<open>id\<close>,
  \<open>gdescription\<close> is \<^verbatim>\<open>description\<close>, \<open>start_dateTime\<close> is \<^verbatim>\<open>start.dateTime\<close> and
  \<open>end_dateTime\<close> is \<^verbatim>\<open>end.dateTime\<close>.
\<close>

record GoogleEvent =
  gid :: string
  summary :: string
  gdescription :: "string option"
  start_dateTime :: string
  end_dateTime :: string

section \<open>Calendar synchronisation (GoogleCalendarSync, syncCalendar)\<close>

text \<open>
  The source holds two versions of the component. They convert and merge the events in the
  same way; the later one, modelled here, also tells an expired authentication from other
  failures.
\<close>

text \<open>
  The callback of \<^verbatim>\<open>googleEvents.map\<close>. \<^verbatim>\<open>split('T')[1]\<close> is \<^verbatim>\<open>undefined\<close> when the
  string holds no \<^verbatim>\<open>T\<close>, and \<^verbatim>\<open>.substring\<close> on it raises a TypeError.
\<close>

definition time_part :: "string \<Rightarrow> js_error + string" where
  "time_part dateTime =
     (case js_index (js_split (CHR ''T'') dateTime) 1 of
        None \<Rightarrow> Inl TypeError
      | Some t \<Rightarrow> Inr (substring 0 5 t))"

definition date_part :: "string \<Rightarrow> string" where
  "date_part dateTime =
     (case js_split (CHR ''T'') dateTime of [] \<Rightarrow> [] | d # _ \<Rightarrow> d)"

definition convertEvent :: "GoogleEvent \<Rightarrow> js_error + Event" where
  "convertEvent gEvent =
     (case time_part (start_dateTime gEvent) of
        Inl err \<Rightarrow> Inl err
      | Inr st \<Rightarrow>
          (case time_part (end_dateTime gEvent) of
             Inl err \<Rightarrow> Inl err
           | Inr en \<Rightarrow>
               Inr \<lparr> eid = gid gEvent,
                     title = summary gEvent,
                     date = date_part (start_dateTime gEvent),
                     startTime = st,
                     endTime = en,
                     description = or_else (gdescription gEvent) [],
                     googleEventId = Some (gid gEvent) \<rparr>))"

text \<open>\<^verbatim>\<open>Array.prototype.map\<close> with a callback that may throw: the first exception ends it.\<close>

fun map_throw :: "('a \<Rightarrow> js_error + 'b) \<Rightarrow> 'a list \<Rightarrow> js_error + 'b list" where
  "map_throw f [] = Inr []"
| "map_throw f (x # xs) =
     (case f x of
        Inl err \<Rightarrow> Inl err
      | Inr y \<Rightarrow> (case map_throw f xs of Inl err \<Rightarrow> Inl err | Inr ys \<Rightarrow> Inr (y # ys)))"

definition convertedEvents :: "GoogleEvent list \<Rightarrow> js_error + Event list" where
  "convertedEvents googleEvents = map_throw convertEvent googleEvents"

text \<open>
  \<^verbatim>\<open>[...events.filter(e => !e.googleEventId), ...convertedEvents]\<close>
\<close>

definition mergedEvents :: "Event list \<Rightarrow> GoogleEvent list \<Rightarrow> js_error + Event list" where
  "mergedEvents evs googleEvents =
     (case convertedEvents googleEvents of
        Inl err \<Rightarrow> Inl err
      | Inr converted \<Rightarrow> Inr (filter (\<lambda>e. \<not> truthy (googleEventId e)) evs @ converted))"

text \<open>
  The component state that \<^verbatim>\<open>syncCalendar\<close> reads and writes. \<open>events\<close> is the parent's
  event list: the prop \<^verbatim>\<open>events\<close> is read from it and \<^verbatim>\<open>onEventsUpdate\<close> (the parent's
  \<^verbatim>\<open>setEvents\<close>) replaces it. \<open>toasts\<close> collects the titles of the toasts shown.
\<close>

record SyncPanel =
  isConnected :: bool
  isLoading :: bool
  lastSyncTime :: "int option"
  events :: "Event list"
  toasts :: "string list"

definition auth_expired_message :: "js_error \<Rightarrow> bool" where
  "auth_expired_message err =
     (case err of Error m \<Rightarrow> js_includes m ''authentication expired'' | _ \<Rightarrow> False)"

text \<open>The \<^verbatim>\<open>catch\<close> and \<^verbatim>\<open>finally\<close> blocks of \<^verbatim>\<open>syncCalendar\<close>.\<close>

definition syncFailed :: "js_error \<Rightarrow> SyncPanel \<Rightarrow> SyncPanel" where
  "syncFailed err p =
     (if auth_expired_message err
      then p \<lparr> toasts := toasts p @ [''Authentication Expired''],
               isConnected := False, isLoading := False \<rparr>
      else p \<lparr> toasts := toasts p @ [''Sync Failed''], isLoading := False \<rparr>)"

text \<open>
  \<^verbatim>\<open>syncCalendar\<close>; \<open>fetched\<close> is what \<^verbatim>\<open>await googleAuthService.getEvents()\<close> gave (a
  list, or the exception it threw) and \<open>now\<close> is \<^verbatim>\<open>new Date()\<close> at the end of the sync.
\<close>

definition syncCalendar :: "js_error + GoogleEvent list \<Rightarrow> int \<Rightarrow> SyncPanel \<Rightarrow> SyncPanel" where
  "syncCalendar fetched now p =
     (if \<not> isConnected p then p
      else (case fetched of
              Inl err \<Rightarrow> syncFailed err p
            | Inr googleEvents \<Rightarrow>
                (case mergedEvents (events p) googleEvents of
                   Inl err \<Rightarrow> syncFailed err p
                 | Inr merged \<Rightarrow>
                     p \<lparr> events := merged, lastSyncTime := Some now,
                         toasts := toasts p @ [''Calendar Synced''],
                         isLoading := False \<rparr>)))"

section \<open>Reminders (RemindersPanel, ReminderModal, notificationService)\<close>

text \<open>
  The interface \<^verbatim>\<open>Reminder\<close>: \<open>rid\<close>, \<open>rtitle\<close>, \<open>rdate\<close>, \<open>rtime\<close> and
  \<open>rdescription\<close> are its fields \<^verbatim>\<open>id\<close>, \<^verbatim>\<open>title\<close>, \<^verbatim>\<open>date\<close>, \<^verbatim>\<open>time\<close> and
  \<^verbatim>\<open>description\<close>.
\<close>

record Reminder =
  rid :: string
  rtitle :: string
  rdate :: string
  rtime :: string
  rdescription :: "string option"
  isComplete :: bool
  notificationSent :: bool
  emailNotification :: bool
  smsNotification :: bool
  phoneNumber :: "string option"

subsection \<open>Notification channels\<close>

text \<open>
  What the world outside the program answers during one dispatch. For the browser: whether
  \<^verbatim>\<open>Notification\<close> is defined, whether its permission is \<^verbatim>\<open>granted\<close>, and the exception
  \<^verbatim>\<open>new Notification\<close> throws, if any. For e-mail and SMS: what the dynamic import of the
  notification module comes to (once for each block); whether the EmailJS and the Twilio
  constants are all set; what \<^verbatim>\<open>emailjs.send\<close> comes to; and the answer of Twilio, where
  \<open>TwilioSilent\<close> is a \<^verbatim>\<open>fetch\<close> (or the reading of its body) that never settles.
\<close>

datatype twilio_reply =
    TwilioSilent
  | TwilioUnreachable
  | TwilioNotJson
  | TwilioResponse bool "string option"

record channels =
  notification_defined :: bool
  notification_granted :: bool
  notification_new :: "js_error option"
  email_import :: "unit promise"
  emailjs_configured :: bool
  emailjs_send :: "unit promise"
  sms_import :: "unit promise"
  twilio_configured :: bool
  twilio_fetch :: twilio_reply

datatype channel = Browser | Email | SMS

text \<open>
  \<open>Delivered\<close>: the channel reported success. \<open>NotDelivered\<close>: it ran and reported that
  nothing was sent (the source logs a warning). \<open>Failed\<close>: it threw, and the
  \<^verbatim>\<open>catch\<close> of its block logged the error. \<open>Unsettled\<close>: the block was entered and a
  call it awaits never settled.
\<close>

datatype outcome = Delivered | NotDelivered | Failed | Unsettled

text \<open>
  \<^verbatim>\<open>sendEmailNotification\<close>: the body of its \<^verbatim>\<open>try\<close>, and the function with its
  \<^verbatim>\<open>catch\<close>, which returns \<open>False\<close>. The reminder and the address only fill the template,
  and the result does not depend on them.
\<close>

definition email_try :: "channels \<Rightarrow> bool promise" where
  "email_try env =
     (if \<not> emailjs_configured env then Resolves False
      else (case emailjs_send env of
              Resolves _ \<Rightarrow> Resolves True
            | Rejects err \<Rightarrow> Rejects err
            | NeverSettles \<Rightarrow> NeverSettles))"

definition sendEmailNotification :: "channels \<Rightarrow> bool promise" where
  "sendEmailNotification env = try_catch_await (email_try env) (\<lambda>error. False)"

text \<open>
  \<^verbatim>\<open>sendSMSNotification\<close>, in the same way. A \<^verbatim>\<open>fetch\<close> that rejects and a body that is
  not JSON throw; a response that is not ok throws
  \<^verbatim>\<open>new Error(result.message || 'Failed to send SMS')\<close>.
\<close>

definition sms_try :: "channels \<Rightarrow> bool promise" where
  "sms_try env =
     (if \<not> twilio_configured env then Resolves False
      else (case twilio_fetch env of
              TwilioSilent \<Rightarrow> NeverSettles
            | TwilioUnreachable \<Rightarrow> Rejects TypeError
            | TwilioNotJson \<Rightarrow> Rejects SyntaxError
            | TwilioResponse ok message \<Rightarrow>
                (if \<not> ok then Rejects (Error (or_else message ''Failed to send SMS''))
                 else Resolves True)))"

definition sendSMSNotification :: "channels \<Rightarrow> bool promise" where
  "sendSMSNotification env = try_catch_await (sms_try env) (\<lambda>error. False)"

text \<open>
  The bodies of the three \<^verbatim>\<open>try\<close> blocks of \<^verbatim>\<open>sendNotification\<close>. The browser block
  awaits nothing; in its \<^verbatim>\<open>else\<close> branch the source reads \<^verbatim>\<open>Notification.permission\<close>,
  which throws when \<^verbatim>\<open>Notification\<close> is not defined. The e-mail and the SMS block await
  the import and then the send function.
\<close>

definition browser_try :: "channels \<Rightarrow> js_error + outcome" where
  "browser_try env =
     (if notification_defined env \<and> notification_granted env
      then (case notification_new env of Some err \<Rightarrow> Inl err | None \<Rightarrow> Inr Delivered)
      else (if \<not> notification_defined env then Inl ReferenceError else Inr NotDelivered))"

definition email_block_try :: "channels \<Rightarrow> outcome promise" where
  "email_block_try env =
     (case email_import env of
        Rejects err \<Rightarrow> Rejects err
      | NeverSettles \<Rightarrow> NeverSettles
      | Resolves _ \<Rightarrow>
          (case sendEmailNotification env of
             Resolves sent \<Rightarrow> Resolves (if \<not> sent then NotDelivered else Delivered)
           | Rejects err \<Rightarrow> Rejects err
           | NeverSettles \<Rightarrow> NeverSettles))"

definition sms_block_try :: "channels \<Rightarrow> outcome promise" where
  "sms_block_try env =
     (case sms_import env of
        Rejects err \<Rightarrow> Rejects err
      | NeverSettles \<Rightarrow> NeverSettles
      | Resolves _ \<Rightarrow>
          (case sendSMSNotification env of
             Resolves sent \<Rightarrow> Resolves (if \<not> sent then NotDelivered else Delivered)
           | Rejects err \<Rightarrow> Rejects err
           | NeverSettles \<Rightarrow> NeverSettles))"

text \<open>
  The blocks of an async function run one after the other: when a block completes the next
  one starts; an exception that leaves a block, or a block that stays suspended, ends the
  run, and the blocks after it are not entered.
\<close>

fun run_blocks :: "(channel \<times> outcome promise) list \<Rightarrow> (channel \<times> outcome) list" where
  "run_blocks [] = []"
| "run_blocks ((c, Resolves out) # blocks) = (c, out) # run_blocks blocks"
| "run_blocks ((c, Rejects err) # blocks) = [(c, Failed)]"
| "run_blocks ((c, NeverSettles) # blocks) = [(c, Unsettled)]"

text \<open>
  \<^verbatim>\<open>sendNotification\<close>: the channels attempted, in order, each with its outcome. Each
  block is a \<^verbatim>\<open>try\<close> whose \<^verbatim>\<open>catch\<close> logs the error and goes on.
\<close>

definition sendNotification :: "channels \<Rightarrow> Reminder \<Rightarrow> (channel \<times> outcome) list" where
  "sendNotification env reminder =
     run_blocks
       ([(Browser, Resolves (try_catch (browser_try env) (\<lambda>err. Failed)))]
        @ (if emailNotification reminder
           then [(Email, try_catch_await (email_block_try env) (\<lambda>error. Failed))] else [])
        @ (if smsNotification reminder \<and> truthy (phoneNumber reminder)
           then [(SMS, try_catch_await (sms_block_try env) (\<lambda>error. Failed))] else []))"

subsection \<open>The panel and its due-check\<close>

text \<open>
  \<open>reminders\<close> is the React state, \<open>stored\<close> the item \<^verbatim>\<open>reminders_<userEmail>\<close> of
  localStorage and \<open>writes\<close> the number of \<^verbatim>\<open>localStorage.setItem\<close> calls made so far.
  \<open>dispatched\<close> records the calls of \<^verbatim>\<open>sendNotification\<close>: the reminder passed and
  what its channels did. \<open>panel_toasts\<close> collects the titles of the toasts.
\<close>

record RemindersPanel =
  reminders :: "Reminder list"
  stored :: "Reminder list option"
  writes :: nat
  dispatched :: "(Reminder \<times> (channel \<times> outcome) list) list"
  panel_toasts :: "string list"

definition saveReminders :: "Reminder list \<Rightarrow> RemindersPanel \<Rightarrow> RemindersPanel" where
  "saveReminders newReminders p =
     p \<lparr> stored := Some newReminders, writes := Suc (writes p), reminders := newReminders \<rparr>"

text \<open>
  \<^verbatim>\<open>isAfter(now, parseISO(`${reminder.date}T${reminder.time}`))\<close>. \<open>parseISO\<close> (date-fns)
  is a parameter: the instant in milliseconds, or \<open>None\<close> for an Invalid Date, which is
  after nothing and which nothing is after.
\<close>

definition isAfter :: "int \<Rightarrow> int option \<Rightarrow> bool" where
  "isAfter d dateToCompare = (case dateToCompare of None \<Rightarrow> False | Some t \<Rightarrow> t < d)"

definition reminderDateTime :: "(string \<Rightarrow> int option) \<Rightarrow> Reminder \<Rightarrow> int option" where
  "reminderDateTime parseISO reminder = parseISO (rdate reminder @ ''T'' @ rtime reminder)"

text \<open>
  The callback of \<^verbatim>\<open>reminders.map\<close> in \<^verbatim>\<open>checkReminders\<close>: the reminder it returns, and
  whether it called \<^verbatim>\<open>sendNotification(reminder)\<close>. The call is not awaited and its
  promise is dropped.
\<close>

definition checkReminder :: "(string \<Rightarrow> int option) \<Rightarrow> int \<Rightarrow> Reminder \<Rightarrow> Reminder \<times> bool" where
  "checkReminder parseISO now reminder =
     (if \<not> notificationSent reminder \<and> \<not> isComplete reminder
      then (if isAfter now (reminderDateTime parseISO reminder)
            then (reminder \<lparr> notificationSent := True \<rparr>, True)
            else (reminder, False))
      else (reminder, False))"

text \<open>One due-check pass.\<close>

definition checkReminders ::
  "(string \<Rightarrow> int option) \<Rightarrow> channels \<Rightarrow> int \<Rightarrow> RemindersPanel \<Rightarrow> RemindersPanel" where
  "checkReminders parseISO env now p =
     (let updatedReminders = map (\<lambda>r. fst (checkReminder parseISO now r)) (reminders p);
          notified = filter (\<lambda>r. snd (checkReminder parseISO now r)) (reminders p);
          p1 = p \<lparr> dispatched := dispatched p @ map (\<lambda>r. (r, sendNotification env r)) notified,
                   panel_toasts := panel_toasts p @ map (\<lambda>r. ''Reminder!'') notified \<rparr>
      in if list_ex (\<lambda>(r, r0). notificationSent r \<noteq> notificationSent r0)
              (zip updatedReminders (reminders p))
         then saveReminders updatedReminders (p1 \<lparr> reminders := updatedReminders \<rparr>)
         else p1)"

text \<open>
  The successive due-checks as one reminder meets them, at the instants \<open>nows\<close>: the
  reminder after the last of them and the number of \<^verbatim>\<open>sendNotification\<close> calls made for
  it. Each pass hands every reminder of the list to the callback and keeps what the
  callback returns, so the next pass meets the reminder as this one left it, wherever it
  stands in the list.
\<close>

fun due_checks :: "(string \<Rightarrow> int option) \<Rightarrow> int list \<Rightarrow> Reminder \<Rightarrow> Reminder \<times> nat" where
  "due_checks parseISO [] reminder = (reminder, 0)"
| "due_checks parseISO (now # nows) reminder =
     (case checkReminder parseISO now reminder of
        (reminder', called) \<Rightarrow>
          (case due_checks parseISO nows reminder' of
             (final, n) \<Rightarrow> (final, (if called then 1 else 0) + n)))"

subsection \<open>Adding and editing reminders\<close>

text \<open>\<^verbatim>\<open>handleAddReminder\<close>; \<open>new_id\<close> is \<^verbatim>\<open>Date.now().toString()\<close>.\<close>

definition handleAddReminder :: "string \<Rightarrow> Reminder \<Rightarrow> RemindersPanel \<Rightarrow> RemindersPanel" where
  "handleAddReminder new_id reminder p =
     (saveReminders (reminders p @ [reminder \<lparr> rid := new_id \<rparr>]) p)
       \<lparr> panel_toasts := panel_toasts p @ [''Reminder Created''] \<rparr>"

definition handleUpdateReminder :: "Reminder \<Rightarrow> RemindersPanel \<Rightarrow> RemindersPanel" where
  "handleUpdateReminder updatedReminder p =
     (saveReminders
        (map (\<lambda>reminder. if rid reminder = rid updatedReminder then updatedReminder else reminder)
           (reminders p)) p)
       \<lparr> panel_toasts := panel_toasts p @ [''Reminder Updated''] \<rparr>"

text \<open>The fields of the form of \<^verbatim>\<open>ReminderModal\<close>.\<close>

record ReminderForm =
  form_title :: string
  form_date :: string
  form_time :: string
  form_description :: string
  form_emailNotification :: bool
  form_smsNotification :: bool
  form_phoneNumber :: string

text \<open>
  \<^verbatim>\<open>handleSubmit\<close> of \<^verbatim>\<open>ReminderModal\<close>. The panel passes \<^verbatim>\<open>handleUpdateReminder\<close> as
  \<^verbatim>\<open>onSave\<close> when a reminder is being edited and \<^verbatim>\<open>handleAddReminder\<close> otherwise.
  The object \<^verbatim>\<open>reminderData\<close> has no \<^verbatim>\<open>id\<close>: its \<open>rid\<close> is a placeholder, which
  \<^verbatim>\<open>handleSubmit\<close> (when editing) or \<^verbatim>\<open>handleAddReminder\<close> overwrites. The parameter
  \<open>trim\<close> is \<^verbatim>\<open>String.prototype.trim\<close>.
\<close>

definition reminderData :: "(string \<Rightarrow> string) \<Rightarrow> ReminderForm \<Rightarrow> Reminder" where
  "reminderData trim f =
     \<lparr> rid = [],
       rtitle = trim (form_title f),
       rdate = form_date f,
       rtime = form_time f,
       rdescription = Some (trim (form_description f)),
       isComplete = False,
       notificationSent = False,
       emailNotification = form_emailNotification f,
       smsNotification = form_smsNotification f,
       phoneNumber = (if form_smsNotification f then Some (form_phoneNumber f) else None) \<rparr>"

definition handleSubmit ::
  "(string \<Rightarrow> string) \<Rightarrow> string \<Rightarrow> ReminderForm \<Rightarrow> Reminder option
     \<Rightarrow> RemindersPanel \<Rightarrow> RemindersPanel" where
  "handleSubmit trim new_id f editingReminder p =
     (if trim (form_title f) = [] \<or> form_date f = [] \<or> form_time f = []
      then p \<lparr> panel_toasts := panel_toasts p @ [''Missing Information''] \<rparr>
      else (case editingReminder of
              Some editing \<Rightarrow>
                handleUpdateReminder ((reminderData trim f) \<lparr> rid := rid editing \<rparr>) p
            | None \<Rightarrow> handleAddReminder new_id (reminderData trim f) p))"

section \<open>The calendar service (GoogleAuthService)\<close>

text \<open>
  The fields of the service object; \<open>tokenClient\<close> says whether the token client has been
  created. \<open>calls\<close> is not a field of the source: it records, in order, the requests the
  service has sent out, so that statements about which requests are made can be written
  down.
\<close>

datatype call =
    TokenRequest
  | ListRequest string
  | CreateRequest string "string \<times> string \<times> string \<times> string"

record GoogleAuthService =
  tokenClient :: bool
  accessToken :: "string option"
  tokenExpiry :: "int option"
  calls :: "call list"

text \<open>
  The response object handed to the token callback, and the two ways the identity service
  can answer a token request: through \<^verbatim>\<open>callback\<close>, or through the \<^verbatim>\<open>error_callback\<close>
  installed by \<^verbatim>\<open>init\<close>, which throws inside the library and settles nothing.
\<close>

record token_response =
  tr_error :: "string option"
  tr_access_token :: string
  tr_expires_in :: int

datatype token_reply = Callback token_response | ErrorCallback

text \<open>
  The member \<^verbatim>\<open>error\<close> of an error body. A status that is not a string and a code that is
  not a number compare unequal under \<^verbatim>\<open>===\<close> and are \<open>None\<close> here.
\<close>

record error_body =
  err_status :: "string option"
  err_code :: "int option"
  err_message :: "string option"

text \<open>
  A JSON body as the service reads it: its member \<^verbatim>\<open>error\<close>, its member \<^verbatim>\<open>items\<close>, and
  the body taken as a \<^verbatim>\<open>GoogleEvent\<close> (what \<^verbatim>\<open>addEvent\<close> returns, unchecked).
\<close>

record json_body =
  body_error :: "error_body option"
  body_items :: "GoogleEvent list option"
  body_event :: GoogleEvent

text \<open>
  The answer to \<^verbatim>\<open>fetch\<close>: it rejects, or there is a response with its \<^verbatim>\<open>ok\<close> flag and
  its body (\<open>None\<close>: the body is not JSON).
\<close>

datatype http_reply = NetworkError | Response bool "json_body option"

text \<open>
  What the world outside the program answers during one call of the service.
  \<open>reply_time\<close> is \<^verbatim>\<open>Date.now()\<close> when the token callback runs.
\<close>

record world =
  script_loads :: bool
  client_id :: "string option"
  token_answer :: token_reply
  reply_time :: int
  http_answer :: http_reply

text \<open>\<^verbatim>\<open>init\<close>\<close>

definition init :: "world \<Rightarrow> GoogleAuthService \<Rightarrow> js_error + GoogleAuthService" where
  "init w s =
     (if tokenClient s then Inr s
      else if \<not> script_loads w then Inl (Error ''Failed to load Google Identity Services'')
      else if \<not> truthy (client_id w)
      then Inl (Error ''Google Calendar API client ID not configured'')
      else Inr (s \<lparr> tokenClient := True \<rparr>))"

text \<open>The call \<^verbatim>\<open>this.tokenClient.requestAccessToken({prompt: 'consent'})\<close>.\<close>

definition requestAccessToken :: "GoogleAuthService \<Rightarrow> GoogleAuthService" where
  "requestAccessToken s = s \<lparr> calls := calls s @ [TokenRequest] \<rparr>"

text \<open>
  \<^verbatim>\<open>requestAccess\<close>. The result \<open>None\<close> is a promise that never settles.
\<close>

definition requestAccess ::
  "world \<Rightarrow> GoogleAuthService \<Rightarrow> (GoogleAuthService \<times> (js_error + unit)) option" where
  "requestAccess w s =
     (case init w s of
        Inl err \<Rightarrow> Some (s, Inl err)
      | Inr s1 \<Rightarrow>
          (case token_answer w of
             ErrorCallback \<Rightarrow> None
           | Callback response \<Rightarrow>
               (case truthy_value (tr_error response) of
                  Some error \<Rightarrow> Some (requestAccessToken s1, Inl (Error error))
                | None \<Rightarrow>
                    Some ((requestAccessToken s1)
                            \<lparr> accessToken := Some (tr_access_token response),
                              tokenExpiry := Some (reply_time w + tr_expires_in response * 1000) \<rparr>,
                          Inr ()))))"

text \<open>
  The condition of \<^verbatim>\<open>refreshTokenIfNeeded\<close>:
  \<^verbatim>\<open>!this.tokenExpiry || Date.now() >= this.tokenExpiry - 60000\<close>. A \<^verbatim>\<open>null\<close> and a zero
  expiry are falsy.
\<close>

definition needs_refresh :: "int \<Rightarrow> GoogleAuthService \<Rightarrow> bool" where
  "needs_refresh now s =
     (case tokenExpiry s of None \<Rightarrow> True | Some expiry \<Rightarrow> expiry = 0 \<or> now \<ge> expiry - 60000)"

definition refreshTokenIfNeeded ::
  "world \<Rightarrow> int \<Rightarrow> GoogleAuthService \<Rightarrow> (GoogleAuthService \<times> (js_error + unit)) option" where
  "refreshTokenIfNeeded w now s =
     (if needs_refresh now s then requestAccess w s else Some (s, Inr ()))"

definition isAuthenticated :: "int \<Rightarrow> GoogleAuthService \<Rightarrow> bool" where
  "isAuthenticated now s \<longleftrightarrow>
     truthy (accessToken s)
     \<and> (case tokenExpiry s of None \<Rightarrow> False | Some expiry \<Rightarrow> expiry \<noteq> 0 \<and> now < expiry)"

text \<open>
  \<^verbatim>\<open>error.error?.status === 'UNAUTHENTICATED' || error.error?.code === 401\<close>
\<close>

definition unauthenticated :: "json_body \<Rightarrow> bool" where
  "unauthenticated b =
     (case body_error b of
        None \<Rightarrow> False
      | Some e \<Rightarrow> err_status e = Some ''UNAUTHENTICATED'' \<or> err_code e = Some 401)"

text \<open>\<^verbatim>\<open>error.error?.message || fallback\<close>\<close>

definition error_message :: "json_body \<Rightarrow> string \<Rightarrow> string" where
  "error_message b fallback =
     (case body_error b of None \<Rightarrow> fallback | Some e \<Rightarrow> or_else (err_message e) fallback)"

text \<open>
  The handling of a response that is not ok, the same in \<^verbatim>\<open>getEvents\<close> and
  \<^verbatim>\<open>addEvent\<close> but for the fallback message.
\<close>

definition not_ok :: "json_body option \<Rightarrow> string \<Rightarrow> GoogleAuthService \<Rightarrow> GoogleAuthService \<times> js_error" where
  "not_ok body fallback s =
     (case body of
        None \<Rightarrow> (s, SyntaxError)
      | Some b \<Rightarrow>
          (if unauthenticated b
           then (s \<lparr> accessToken := None, tokenExpiry := None \<rparr>, Error ''authentication expired'')
           else (s, Error (error_message b fallback))))"

text \<open>
  \<^verbatim>\<open>getEvents\<close>. Its \<^verbatim>\<open>catch\<close> logs the exception and throws it again.
\<close>

definition getEvents ::
  "world \<Rightarrow> int \<Rightarrow> GoogleAuthService \<Rightarrow> (GoogleAuthService \<times> (js_error + GoogleEvent list)) option" where
  "getEvents w now s =
     (case refreshTokenIfNeeded w now s of
        None \<Rightarrow> None
      | Some (s1, Inl err) \<Rightarrow> Some (s1, Inl err)
      | Some (s1, Inr _) \<Rightarrow>
          (case truthy_value (accessToken s1) of
             None \<Rightarrow> Some (s1, Inl (Error ''Not authenticated with Google Calendar''))
           | Some token \<Rightarrow>
             (let s2 = s1 \<lparr> calls := calls s1 @ [ListRequest token] \<rparr>
              in case http_answer w of
                   NetworkError \<Rightarrow> Some (s2, Inl TypeError)
                 | Response ok body \<Rightarrow>
                     (if \<not> ok
                      then (case not_ok body ''Failed to fetch events'' s2 of
                              (s3, err) \<Rightarrow> Some (s3, Inl err))
                      else (case body of
                              None \<Rightarrow> Some (s2, Inl SyntaxError)
                            | Some data \<Rightarrow>
                                Some (s2, Inr (case body_items data of
                                                 None \<Rightarrow> [] | Some items \<Rightarrow> items)))))))"

text \<open>\<^verbatim>\<open>addEvent\<close>\<close>

definition addEvent ::
  "world \<Rightarrow> Event \<Rightarrow> int \<Rightarrow> GoogleAuthService \<Rightarrow> (GoogleAuthService \<times> (js_error + GoogleEvent)) option" where
  "addEvent w event now s =
     (case refreshTokenIfNeeded w now s of
        None \<Rightarrow> None
      | Some (s1, Inl err) \<Rightarrow> Some (s1, Inl err)
      | Some (s1, Inr _) \<Rightarrow>
          (case truthy_value (accessToken s1) of
             None \<Rightarrow> Some (s1, Inl (Error ''Not authenticated with Google Calendar''))
           | Some token \<Rightarrow>
             (let s2 = s1 \<lparr> calls := calls s1 @
                          [CreateRequest token
                             (title event, description event,
                              date event @ ''T'' @ startTime event @ '':00'',
                              date event @ ''T'' @ endTime event @ '':00'')] \<rparr>
              in case http_answer w of
                   NetworkError \<Rightarrow> Some (s2, Inl TypeError)
                 | Response ok body \<Rightarrow>
                     (if \<not> ok
                      then (case not_ok body ''Failed to add event'' s2 of
                              (s3, err) \<Rightarrow> Some (s3, Inl err))
                      else (case body of
                              None \<Rightarrow> Some (s2, Inl SyntaxError)
                            | Some data \<Rightarrow> Some (s2, Inr (body_event data)))))))"

text \<open>\<^verbatim>\<open>logout\<close>\<close>

definition logout :: "GoogleAuthService \<Rightarrow> GoogleAuthService" where
  "logout s = s \<lparr> accessToken := None, tokenExpiry := None \<rparr>"

subsection \<open>Callers that overlap\<close>

text \<open>
  JavaScript runs a call until its first \<^verbatim>\<open>await\<close> that has to wait. For
  \<^verbatim>\<open>refreshTokenIfNeeded\<close> on a service whose token client exists that is: the test of the
  expiry and, when it asks for a refresh, the call \<^verbatim>\<open>requestAccessToken\<close> inside the
  promise of \<^verbatim>\<open>requestAccess\<close>; then the caller waits for the token callback. Nothing is
  written to the service before that callback runs.
\<close>

definition refresh_begins :: "int \<Rightarrow> GoogleAuthService \<Rightarrow> GoogleAuthService" where
  "refresh_begins now s =
     (if needs_refresh now s \<and> tokenClient s then requestAccessToken s else s)"

text \<open>
  Callers that reach \<^verbatim>\<open>refreshTokenIfNeeded\<close> one after the other, at the instants \<open>nows\<close>,
  all of them before a token callback has run.
\<close>

fun overlapping_callers :: "int list \<Rightarrow> GoogleAuthService \<Rightarrow> GoogleAuthService" where
  "overlapping_callers [] s = s"
| "overlapping_callers (now # nows) s = overlapping_callers nows (refresh_begins now s)"

definition token_requests :: "GoogleAuthService \<Rightarrow> nat" where
  "token_requests s = count_list (calls s) TokenRequest"

definition calendar_requests :: "GoogleAuthService \<Rightarrow> call list" where
  "calendar_requests s = filter (\<lambda>c. c \<noteq> TokenRequest) (calls s)"

section \<open>Notions used in the statements\<close>

text \<open>
  The merge as the specification words it: the local events without an external id,
  followed by the image of each fetched event, whose date is the part of
  \<^verbatim>\<open>start.dateTime\<close> before \<^verbatim>\<open>T\<close> and whose times are the first five characters after
  \<^verbatim>\<open>T\<close>.
\<close>

definition spec_map :: "GoogleEvent \<Rightarrow> Event" where
  "spec_map r =
     \<lparr> eid = gid r, title = summary r,
       date = takeWhile (\<lambda>c. c \<noteq> CHR ''T'') (start_dateTime r),
       startTime = take 5 (drop 1 (dropWhile (\<lambda>c. c \<noteq> CHR ''T'') (start_dateTime r))),
       endTime = take 5 (drop 1 (dropWhile (\<lambda>c. c \<noteq> CHR ''T'') (end_dateTime r))),
       description = (case gdescription r of None \<Rightarrow> [] | Some d \<Rightarrow> d),
       googleEventId = Some (gid r) \<rparr>"

definition spec_merge :: "Event list \<Rightarrow> GoogleEvent list \<Rightarrow> Event list" where
  "spec_merge L R = filter (\<lambda>l. googleEventId l = None) L @ map spec_map R"

text \<open>
  What \<^verbatim>\<open>syncCalendar\<close> makes of a fetched event whose two \<^verbatim>\<open>dateTime\<close> strings hold a
  \<^verbatim>\<open>T\<close> (\<open>has_T\<close>): the date is the text before the first \<^verbatim>\<open>T\<close>; a time is the first
  five characters of the text between the first \<^verbatim>\<open>T\<close> and the next one (or the end).
\<close>

definition has_T :: "GoogleEvent \<Rightarrow> bool" where
  "has_T g \<longleftrightarrow> CHR ''T'' \<in> set (start_dateTime g) \<and> CHR ''T'' \<in> set (end_dateTime g)"

definition described_event :: "GoogleEvent \<Rightarrow> Event" where
  "described_event g =
     \<lparr> eid = gid g, title = summary g,
       date = takeWhile (\<lambda>c. c \<noteq> CHR ''T'') (start_dateTime g),
       startTime = take 5 (takeWhile (\<lambda>c. c \<noteq> CHR ''T'')
                     (tl (dropWhile (\<lambda>c. c \<noteq> CHR ''T'') (start_dateTime g)))),
       endTime = take 5 (takeWhile (\<lambda>c. c \<noteq> CHR ''T'')
                     (tl (dropWhile (\<lambda>c. c \<noteq> CHR ''T'') (end_dateTime g)))),
       description = (case gdescription g of None \<Rightarrow> [] | Some d \<Rightarrow> d),
       googleEventId = Some (gid g) \<rparr>"

text \<open>The events that carry a given external id, and those that carry none.\<close>

definition with_external_id :: "string \<Rightarrow> Event list \<Rightarrow> Event list" where
  "with_external_id x evs = filter (\<lambda>e. googleEventId e = Some x) evs"

definition lacking_external_id :: "Event list \<Rightarrow> Event list" where
  "lacking_external_id evs = filter (\<lambda>e. googleEventId e = None) evs"

text \<open>
  The e-mail block of \<^verbatim>\<open>sendNotification\<close> comes to an end: its import settles and,
  when the import resolves and EmailJS is configured, \<^verbatim>\<open>emailjs.send\<close> settles.
\<close>

definition email_settles :: "channels \<Rightarrow> bool" where
  "email_settles env =
     (case email_import env of
        NeverSettles \<Rightarrow> False
      | Rejects err \<Rightarrow> True
      | Resolves u \<Rightarrow> \<not> emailjs_configured env \<or> emailjs_send env \<noteq> NeverSettles)"

section \<open>Concrete inputs\<close>

text \<open>A connected synchronisation panel over a list of events.\<close>

definition connected :: "Event list \<Rightarrow> SyncPanel" where
  "connected evs = \<lparr> isConnected = True, isLoading = False, lastSyncTime = None,
     events = evs, toasts = [] \<rparr>"

text \<open>
  The scenario of the specification: one local event without external id, and one fetched
  event. \<open>planning_again\<close> is a second fetched event with the same id, \<open>date_only\<close> a
  fetched event whose \<^verbatim>\<open>dateTime\<close> strings hold a date and no \<^verbatim>\<open>T\<close>.
\<close>

definition standup :: Event where
  "standup = \<lparr> eid = ''1'', title = ''Standup'', date = ''2024-01-10'', startTime = ''09:00'',
     endTime = ''09:15'', description = [], googleEventId = None \<rparr>"

definition planning :: GoogleEvent where
  "planning = \<lparr> gid = ''g1'', summary = ''Planning'', gdescription = None,
     start_dateTime = ''2024-01-11T10:00:00'', end_dateTime = ''2024-01-11T11:00:00'' \<rparr>"

definition planning_again :: GoogleEvent where
  "planning_again = \<lparr> gid = ''g1'', summary = ''Planning (moved)'', gdescription = None,
     start_dateTime = ''2024-01-12T10:00:00'', end_dateTime = ''2024-01-12T11:00:00'' \<rparr>"

definition date_only :: GoogleEvent where
  "date_only = \<lparr> gid = ''g2'', summary = ''Holiday'', gdescription = None,
     start_dateTime = ''2024-01-12'', end_dateTime = ''2024-01-13'' \<rparr>"

text \<open>
  A reminder for 2024-01-10 09:00, and a \<open>parseISO\<close> that knows that instant
  (1704877200000 ms); a completed reminder; the first reminder once notified; a form that
  moves it to another day.
\<close>

definition parse0 :: "string \<Rightarrow> int option" where
  "parse0 s = (if s = ''2024-01-10T09:00'' then Some 1704877200000 else None)"

definition dentist :: Reminder where
  "dentist = \<lparr> rid = ''r1'', rtitle = ''Dentist'', rdate = ''2024-01-10'', rtime = ''09:00'',
     rdescription = None, isComplete = False, notificationSent = False,
     emailNotification = True, smsNotification = True, phoneNumber = Some ''+15550100'' \<rparr>"

definition done_reminder :: Reminder where
  "done_reminder = \<lparr> rid = ''r2'', rtitle = ''Taxes'', rdate = ''2024-01-10'', rtime = ''09:00'',
     rdescription = None, isComplete = True, notificationSent = False,
     emailNotification = False, smsNotification = False, phoneNumber = None \<rparr>"

definition sent_dentist :: Reminder where
  "sent_dentist = dentist \<lparr> notificationSent := True \<rparr>"

definition reschedule :: ReminderForm where
  "reschedule = \<lparr> form_title = ''Dentist'', form_date = ''2024-02-01'', form_time = ''10:30'',
     form_description = [], form_emailNotification = True, form_smsNotification = False,
     form_phoneNumber = [] \<rparr>"

text \<open>A panel whose store holds its list, before any due-check.\<close>

definition panel_of :: "Reminder list \<Rightarrow> RemindersPanel" where
  "panel_of rs = \<lparr> reminders = rs, stored = Some rs, writes = 0, dispatched = [],
     panel_toasts = [] \<rparr>"

text \<open>
  Channels where the import of the notification module fails in the e-mail block, and the
  browser and the SMS provider work; and channels where \<^verbatim>\<open>emailjs.send\<close> never settles.
\<close>

definition email_broken :: channels where
  "email_broken = \<lparr> notification_defined = True, notification_granted = True,
     notification_new = None, email_import = Rejects (Error ''Failed to fetch module''),
     emailjs_configured = True, emailjs_send = Resolves (), sms_import = Resolves (),
     twilio_configured = True, twilio_fetch = TwilioResponse True None \<rparr>"

definition email_silent :: channels where
  "email_silent = \<lparr> notification_defined = True, notification_granted = True,
     notification_new = None, email_import = Resolves (),
     emailjs_configured = True, emailjs_send = NeverSettles, sms_import = Resolves (),
     twilio_configured = True, twilio_fetch = TwilioResponse True None \<rparr>"

text \<open>
  A service whose token expires 30 seconds after the instant 1000000, one whose token is
  good for much longer, and one without a token; a world where the identity service
  answers \<^verbatim>\<open>access_denied\<close>, one where the calendar answers UNAUTHENTICATED, and one
  where the identity service answers through the error callback.
\<close>

definition expiring :: GoogleAuthService where
  "expiring = \<lparr> tokenClient = True, accessToken = Some ''old-token'',
     tokenExpiry = Some 1030000, calls = [] \<rparr>"

definition fresh :: GoogleAuthService where
  "fresh = \<lparr> tokenClient = True, accessToken = Some ''token'',
     tokenExpiry = Some 2000000, calls = [] \<rparr>"

definition signed_out :: GoogleAuthService where
  "signed_out = \<lparr> tokenClient = True, accessToken = None, tokenExpiry = None, calls = [] \<rparr>"

definition no_event :: GoogleEvent where
  "no_event = \<lparr> gid = [], summary = [], gdescription = None,
     start_dateTime = [], end_dateTime = [] \<rparr>"

definition denied :: world where
  "denied = \<lparr> script_loads = True, client_id = Some ''client'',
     token_answer = Callback \<lparr> tr_error = Some ''access_denied'', tr_access_token = [],
                              tr_expires_in = 0 \<rparr>,
     reply_time = 1002000,
     http_answer = Response True
       (Some \<lparr> body_error = None, body_items = Some [], body_event = no_event \<rparr>) \<rparr>"

definition rejected :: world where
  "rejected = \<lparr> script_loads = True, client_id = Some ''client'',
     token_answer = Callback \<lparr> tr_error = None, tr_access_token = ''new-token'',
                              tr_expires_in = 3600 \<rparr>,
     reply_time = 1002000,
     http_answer = Response False
       (Some \<lparr> body_error = Some \<lparr> err_status = Some ''UNAUTHENTICATED'', err_code = Some 401,
                                     err_message = Some ''Invalid Credentials'' \<rparr>,
               body_items = None, body_event = no_event \<rparr>) \<rparr>"

definition popup_closed :: world where
  "popup_closed = \<lparr> script_loads = True, client_id = Some ''client'',
     token_answer = ErrorCallback, reply_time = 1002000, http_answer = NetworkError \<rparr>"

section \<open>The merge of a synchronisation\<close>

lemma js_split_not_Nil: "js_split c s \<noteq> []"
  by (induction s) (auto split: list.splits)

lemma js_split_unfold:
  "js_split c s = takeWhile (\<lambda>x. x \<noteq> c) s #
     (if c \<in> set s then js_split c (tl (dropWhile (\<lambda>x. x \<noteq> c) s)) else [])"
proof (induction s)
  case Nil
  then show ?case by simp
next
  case (Cons x xs)
  then show ?case by (cases "js_split c xs") (auto simp: js_split_not_Nil)
qed

lemma js_split_head: "\<exists>ss. js_split c s = takeWhile (\<lambda>x. x \<noteq> c) s # ss"
  by (subst js_split_unfold) simp

lemma date_part_eq: "date_part s = takeWhile (\<lambda>x. x \<noteq> CHR ''T'') s"
proof -
  obtain ss where "js_split (CHR ''T'') s = takeWhile (\<lambda>x. x \<noteq> CHR ''T'') s # ss"
    using js_split_head by blast
  then show ?thesis by (simp add: date_part_def)
qed

lemma time_part_eq:
  "time_part s =
     (if CHR ''T'' \<in> set s
      then Inr (take 5 (takeWhile (\<lambda>x. x \<noteq> CHR ''T'') (tl (dropWhile (\<lambda>x. x \<noteq> CHR ''T'') s))))
      else Inl TypeError)"
proof (cases "CHR ''T'' \<in> set s")
  case True
  obtain ss where ss: "js_split (CHR ''T'') (tl (dropWhile (\<lambda>x. x \<noteq> CHR ''T'') s)) =
      takeWhile (\<lambda>x. x \<noteq> CHR ''T'') (tl (dropWhile (\<lambda>x. x \<noteq> CHR ''T'') s)) # ss"
    using js_split_head by blast
  have "js_split (CHR ''T'') s = takeWhile (\<lambda>x. x \<noteq> CHR ''T'') s #
          js_split (CHR ''T'') (tl (dropWhile (\<lambda>x. x \<noteq> CHR ''T'') s))"
    using True by (subst js_split_unfold) simp
  with ss True show ?thesis
    by (simp add: time_part_def js_index_def substring_def)
next
  case False
  have "js_split (CHR ''T'') s = [takeWhile (\<lambda>x. x \<noteq> CHR ''T'') s]"
    using False by (subst js_split_unfold) simp
  then show ?thesis using False by (simp add: time_part_def js_index_def)
qed

lemma map_throw_Inr:
  "(\<forall>x \<in> set xs. f x = Inr (g x)) \<Longrightarrow> map_throw f xs = Inr (map g xs)"
  by (induction xs) auto

lemma convertEvent_eq:
  "convertEvent g = (if has_T g then Inr (described_event g) else Inl TypeError)"
  by (auto simp: convertEvent_def time_part_eq date_part_eq has_T_def described_event_def
      or_else_def split: option.splits)

lemma convertedEvents_ok:
  "list_all has_T R \<Longrightarrow> convertedEvents R = Inr (map described_event R)"
  unfolding convertedEvents_def
  by (rule map_throw_Inr) (simp add: convertEvent_eq list_all_iff)

lemma convertedEvents_fail:
  "\<not> list_all has_T R \<Longrightarrow> convertedEvents R = Inl TypeError"
  unfolding convertedEvents_def
  by (induction R) (auto simp: convertEvent_eq split: sum.splits)

lemma mergedEvents_eq:
  "mergedEvents L R =
     (if list_all has_T R
      then Inr (filter (\<lambda>e. \<not> truthy (googleEventId e)) L @ map described_event R)
      else Inl TypeError)"
  by (simp add: mergedEvents_def convertedEvents_ok convertedEvents_fail)

lemma not_truthy_iff: "\<not> truthy v \<longleftrightarrow> v = None \<or> v = Some []"
  by (cases v) (auto simp: truthy_def)

text \<open>
  Claim C1, amended. A connected synchronisation that fetched the list \<open>R\<close>, every
  \<^verbatim>\<open>start.dateTime\<close> and \<^verbatim>\<open>end.dateTime\<close> of which holds a \<^verbatim>\<open>T\<close>, replaces the event list
  by: the events whose \<^verbatim>\<open>googleEventId\<close> is absent or the empty string, in their order and
  unchanged, followed by one event for each fetched event, in order, with \<^verbatim>\<open>id\<close> and
  \<^verbatim>\<open>googleEventId\<close> the fetched id, \<^verbatim>\<open>title\<close> the summary, \<^verbatim>\<open>description\<close> the fetched
  description or the empty string, \<^verbatim>\<open>date\<close> the text of \<^verbatim>\<open>start.dateTime\<close> before its first
  \<^verbatim>\<open>T\<close>, and \<^verbatim>\<open>startTime\<close> and \<^verbatim>\<open>endTime\<close> the first five characters of the text between
  the first \<^verbatim>\<open>T\<close> and the next. When some \<^verbatim>\<open>dateTime\<close> holds no \<^verbatim>\<open>T\<close> the synchronisation
  fails and the event list stays as it was.
\<close>

theorem syncCalendar_merge:
  assumes "isConnected p"
  shows "(list_all has_T R \<longrightarrow>
            events (syncCalendar (Inr R) now p) =
              filter (\<lambda>e. googleEventId e = None \<or> googleEventId e = Some []) (events p)
              @ map described_event R)
       \<and> (\<not> list_all has_T R \<longrightarrow>
            events (syncCalendar (Inr R) now p) = events p)"
  using assms
  by (simp add: syncCalendar_def mergedEvents_eq not_truthy_iff syncFailed_def
      auth_expired_message_def)

text \<open>On the scenario of the specification the merged list is the expected one.\<close>

theorem syncCalendar_merge_witness:
  "isConnected (connected [standup]) \<and> list_all has_T [planning] \<and>
   events (syncCalendar (Inr [planning]) 0 (connected [standup])) =
     [standup,
      \<lparr> eid = ''g1'', title = ''Planning'', date = ''2024-01-11'', startTime = ''10:00'',
        endTime = ''11:00'', description = [], googleEventId = Some ''g1'' \<rparr>]
   \<and> \<not> list_all has_T [date_only]
   \<and> events (syncCalendar (Inr [date_only]) 0 (connected [standup])) = [standup]"
  using syncCalendar_merge [of "connected [standup]" "[planning]" 0]
    syncCalendar_merge [of "connected [standup]" "[date_only]" 0]
  by (simp add: connected_def standup_def planning_def date_only_def has_T_def
      described_event_def)

text \<open>
  The claim as stated, for every fetched list, fails on a fetched event whose
  \<^verbatim>\<open>dateTime\<close> strings hold only a date: the conversion throws and nothing is merged.
\<close>

theorem syncCalendar_merge_counterexample:
  "set (events (syncCalendar (Inr [date_only]) 0 (connected [standup])))
     \<noteq> set (spec_merge (events (connected [standup])) [date_only])"
  by (simp add: syncCalendar_def mergedEvents_eq has_T_def date_only_def connected_def
      syncFailed_def auth_expired_message_def spec_merge_def spec_map_def standup_def)

lemma set_merged_twice:
  "set (filter (\<lambda>e. \<not> truthy (googleEventId e)) (filter (\<lambda>e. \<not> truthy (googleEventId e)) L @ C) @ C)
     = set (filter (\<lambda>e. \<not> truthy (googleEventId e)) L @ C)"
  by auto

text \<open>
  Claim C4. Synchronising again with the same fetched list gives the same set of events:
  for every panel and every fetched list, the events after two synchronisations with the
  list are, as a set, the events after one.
\<close>

theorem syncCalendar_idempotent:
  "set (events (syncCalendar (Inr R) n2 (syncCalendar (Inr R) n1 p)))
     = set (events (syncCalendar (Inr R) n1 p))"
proof (cases "isConnected p \<and> list_all has_T R")
  case True
  then show ?thesis
    by (simp add: syncCalendar_def mergedEvents_eq set_merged_twice del: set_append filter_append)
next
  case False
  then show ?thesis
    by (auto simp: syncCalendar_def mergedEvents_eq syncFailed_def auth_expired_message_def)
qed

theorem syncCalendar_idempotent_witness:
  "set (events (syncCalendar (Inr [planning]) 1 (syncCalendar (Inr [planning]) 0 (connected [standup]))))
     = set (events (syncCalendar (Inr [planning]) 0 (connected [standup])))
   \<and> events (syncCalendar (Inr [planning]) 1 (syncCalendar (Inr [planning]) 0 (connected [standup])))
     = [standup, described_event planning]"
  using syncCalendar_idempotent [of "[planning]" 1 0 "connected [standup]"]
  by (simp add: syncCalendar_def mergedEvents_eq has_T_def planning_def connected_def
      standup_def truthy_def described_event_def)

lemma with_external_id_described:
  "length (with_external_id x (map described_event R)) = count_list (map gid R) x"
  by (induction R) (auto simp: with_external_id_def described_event_def)

lemma with_external_id_kept:
  "x \<noteq> [] \<Longrightarrow> with_external_id x (filter (\<lambda>e. \<not> truthy (googleEventId e)) L) = []"
  by (induction L) (auto simp: with_external_id_def truthy_def)

lemma with_external_id_append:
  "with_external_id x (xs @ ys) = with_external_id x xs @ with_external_id x ys"
  by (simp add: with_external_id_def)

lemma lacking_kept:
  "lacking_external_id (filter (\<lambda>e. \<not> truthy (googleEventId e)) L @ map described_event R)
     = lacking_external_id L"
proof -
  have "lacking_external_id (map described_event R) = []"
    by (induction R) (auto simp: lacking_external_id_def described_event_def)
  moreover have "lacking_external_id (filter (\<lambda>e. \<not> truthy (googleEventId e)) L) = lacking_external_id L"
    by (induction L) (auto simp: lacking_external_id_def truthy_def)
  ultimately show ?thesis by (simp add: lacking_external_id_def)
qed

lemma count_list_distinct: "distinct xs \<Longrightarrow> count_list xs x \<le> 1"
  by (induction xs) (auto simp: count_list_0_iff)

text \<open>
  Claim C7, amended. After a connected synchronisation that fetched a list \<open>R\<close> whose
  \<^verbatim>\<open>dateTime\<close> strings all hold a \<^verbatim>\<open>T\<close>, the merged list holds, for every non-empty external
  id, as many events with that id as \<open>R\<close> holds events with it: one for each occurrence,
  so at most one when the ids of \<open>R\<close> are pairwise distinct; and the events without an
  external id are those of the list before, unchanged.
\<close>

theorem syncCalendar_external_ids:
  assumes "isConnected p" and "list_all has_T R" and "x \<noteq> []"
  shows "length (with_external_id x (events (syncCalendar (Inr R) now p)))
           = count_list (map gid R) x
       \<and> (distinct (map gid R) \<longrightarrow>
           length (with_external_id x (events (syncCalendar (Inr R) now p))) \<le> 1)
       \<and> lacking_external_id (events (syncCalendar (Inr R) now p))
           = lacking_external_id (events p)"
proof -
  have ev: "events (syncCalendar (Inr R) now p)
      = filter (\<lambda>e. \<not> truthy (googleEventId e)) (events p) @ map described_event R"
    using assms(1,2) by (simp add: syncCalendar_def mergedEvents_eq)
  have c: "length (with_external_id x (events (syncCalendar (Inr R) now p)))
           = count_list (map gid R) x"
    using assms(3)
    by (simp add: ev with_external_id_append with_external_id_kept with_external_id_described)
  have d: "distinct (map gid R) \<longrightarrow>
           length (with_external_id x (events (syncCalendar (Inr R) now p))) \<le> 1"
    using c count_list_distinct [of "map gid R" x] by simp
  have l: "lacking_external_id (events (syncCalendar (Inr R) now p))
           = lacking_external_id (events p)"
    by (simp add: ev lacking_kept)
  from c d l show ?thesis by (intro conjI)
qed

theorem syncCalendar_external_ids_witness:
  "isConnected (connected [standup]) \<and> list_all has_T [planning] \<and> ''g1'' \<noteq> [] \<and>
   distinct (map gid [planning]) \<and>
   length (with_external_id ''g1'' (events (syncCalendar (Inr [planning]) 0 (connected [standup])))) = 1
   \<and> lacking_external_id (events (syncCalendar (Inr [planning]) 0 (connected [standup]))) = [standup]"
  using syncCalendar_external_ids [of "connected [standup]" "[planning]" "''g1''" 0]
  by (simp add: connected_def planning_def has_T_def lacking_external_id_def standup_def)

text \<open>
  Two fetched events with the same id give two merged events with that external id.
\<close>

theorem syncCalendar_external_ids_counterexample:
  "length (with_external_id ''g1''
     (events (syncCalendar (Inr [planning, planning_again]) 0 (connected [standup])))) = 2"
  by (simp add: syncCalendar_def mergedEvents_eq has_T_def planning_def planning_again_def
      connected_def with_external_id_def described_event_def standup_def truthy_def)

section \<open>The due-check\<close>

lemma checkReminder_cases:
  "checkReminder parseISO now r =
     (if \<not> notificationSent r \<and> \<not> isComplete r \<and> isAfter now (reminderDateTime parseISO r)
      then (r \<lparr> notificationSent := True \<rparr>, True) else (r, False))"
  by (simp add: checkReminder_def)

lemma list_ex_zip_map:
  "list_ex P (zip (map f xs) xs) \<longleftrightarrow> (\<exists>x \<in> set xs. P (f x, x))"
  by (induction xs) auto

lemma flag_changed_iff:
  "list_ex (\<lambda>(r, r0). notificationSent r \<noteq> notificationSent r0)
     (zip (map (\<lambda>r. fst (checkReminder parseISO now r)) rs) rs)
   \<longleftrightarrow> (\<exists>r \<in> set rs. snd (checkReminder parseISO now r))"
  by (auto simp: list_ex_zip_map checkReminder_cases split: if_splits)

lemma unchanged_when_none_due:
  "\<not> (\<exists>r \<in> set rs. snd (checkReminder parseISO now r))
     \<Longrightarrow> map (\<lambda>r. fst (checkReminder parseISO now r)) rs = rs"
  by (induction rs) (auto simp: checkReminder_cases split: if_splits)

lemma checkReminders_reminders:
  "reminders (checkReminders parseISO env now p)
     = map (\<lambda>r. fst (checkReminder parseISO now r)) (reminders p)"
  unfolding checkReminders_def Let_def flag_changed_iff
  by (simp add: saveReminders_def unchanged_when_none_due)

lemma checkReminders_dispatched:
  "dispatched (checkReminders parseISO env now p)
     = dispatched p @ map (\<lambda>r. (r, sendNotification env r))
         (filter (\<lambda>r. snd (checkReminder parseISO now r)) (reminders p))"
  by (simp add: checkReminders_def Let_def saveReminders_def)

lemma checkReminders_store:
  "(if \<exists>r \<in> set (reminders p). snd (checkReminder parseISO now r)
    then writes (checkReminders parseISO env now p) = Suc (writes p)
       \<and> stored (checkReminders parseISO env now p)
           = Some (map (\<lambda>r. fst (checkReminder parseISO now r)) (reminders p))
    else writes (checkReminders parseISO env now p) = writes p
       \<and> stored (checkReminders parseISO env now p) = stored p)"
  unfolding checkReminders_def Let_def flag_changed_iff
  by (simp add: saveReminders_def)

lemma checkReminders_nth:
  "i < length (reminders p) \<Longrightarrow>
     reminders (checkReminders parseISO env now p) ! i
       = fst (checkReminder parseISO now (reminders p ! i))"
  by (simp add: checkReminders_reminders)

lemma flag_flips_iff:
  "(notificationSent (fst (checkReminder parseISO now r)) = (\<not> notificationSent r))
     = snd (checkReminder parseISO now r)"
  by (simp add: checkReminder_cases)

lemma checkReminder_frame:
  "isComplete r \<or> notificationSent r \<or> \<not> isAfter now (reminderDateTime parseISO r)
     \<Longrightarrow> fst (checkReminder parseISO now r) = r"
  by (auto simp: checkReminder_cases)

lemma due_checks_sent:
  "notificationSent r \<Longrightarrow> due_checks parseISO nows r = (r, 0)"
  by (induction nows) (simp_all add: checkReminder_cases)

lemma due_checks_early:
  "reminderDateTime parseISO r = Some t \<Longrightarrow> \<forall>n \<in> set nows. n \<le> t
     \<Longrightarrow> due_checks parseISO nows r = (r, 0)"
  by (induction nows) (simp_all add: checkReminder_cases isAfter_def)

lemma due_checks_append:
  "due_checks parseISO (xs @ ys) r =
     (case due_checks parseISO xs r of
        (r', n) \<Rightarrow> (case due_checks parseISO ys r' of (r'', m) \<Rightarrow> (r'', n + m)))"
  by (induction xs arbitrary: r) (auto split: prod.splits)

text \<open>
  Claim C2, amended. For a reminder that is not complete and not yet notified, whose date
  and time parse to the instant \<open>t\<close>: through every due-check at an instant up to and
  including \<open>t\<close> the reminder stays as it is and \<^verbatim>\<open>sendNotification\<close> is not called; the
  first due-check at an instant strictly after \<open>t\<close> calls \<^verbatim>\<open>sendNotification\<close> and sets
  \<^verbatim>\<open>notificationSent\<close>; through all later due-checks the flag stays set and
  \<^verbatim>\<open>sendNotification\<close> is not called again, so that it was called exactly once.
\<close>

theorem due_checks_once:
  assumes "\<not> isComplete r" and "\<not> notificationSent r"
    and "reminderDateTime parseISO r = Some t"
    and "\<forall>n \<in> set before. n \<le> t" and "t < now"
  shows "due_checks parseISO before r = (r, 0)
       \<and> due_checks parseISO (before @ [now]) r = (r \<lparr> notificationSent := True \<rparr>, 1)
       \<and> due_checks parseISO (before @ now # later) r = (r \<lparr> notificationSent := True \<rparr>, 1)"
proof -
  have b: "due_checks parseISO before r = (r, 0)"
    using assms(3,4) by (rule due_checks_early)
  have step: "checkReminder parseISO now r = (r \<lparr> notificationSent := True \<rparr>, True)"
    using assms(1,2,3,5) by (simp add: checkReminder_cases isAfter_def)
  have rest: "due_checks parseISO later (r \<lparr> notificationSent := True \<rparr>)
      = (r \<lparr> notificationSent := True \<rparr>, 0)" for later
    by (rule due_checks_sent) simp
  show ?thesis
    by (simp add: due_checks_append b step rest)
qed

theorem due_checks_once_witness:
  "\<not> isComplete dentist \<and> \<not> notificationSent dentist
   \<and> reminderDateTime parse0 dentist = Some 1704877200000
   \<and> (1704877140000::int) \<le> 1704877200000 \<and> (1704877200000::int) \<le> 1704877200000
   \<and> (1704877200000::int) < 1704877260000
   \<and> due_checks parse0 [1704877140000, 1704877200000] dentist = (dentist, 0)
   \<and> due_checks parse0 [1704877140000, 1704877200000, 1704877260000] dentist
       = (dentist \<lparr> notificationSent := True \<rparr>, 1)
   \<and> due_checks parse0 [1704877140000, 1704877200000, 1704877260000, 1704877320000, 1704877380000]
        dentist = (dentist \<lparr> notificationSent := True \<rparr>, 1)"
  using due_checks_once [of dentist parse0 1704877200000 "[1704877140000, 1704877200000]"
      1704877260000 "[1704877320000, 1704877380000]"]
  by (simp add: dentist_def parse0_def reminderDateTime_def)

text \<open>
  A due-check at the very instant of the reminder (\<open>now = t\<close>, so \<open>now \<ge> t\<close>) does nothing.
\<close>

theorem due_checks_once_counterexample:
  "reminderDateTime parse0 dentist = Some 1704877200000
   \<and> checkReminders parse0 email_broken 1704877200000 (panel_of [dentist]) = panel_of [dentist]"
  by (simp add: checkReminders_def Let_def checkReminder_cases isAfter_def
      reminderDateTime_def parse0_def dentist_def panel_of_def)

lemma email_block_never_rejects:
  "try_catch_await (email_block_try env) (\<lambda>error. Failed) \<noteq> Rejects err"
  by (simp add: try_catch_await_def split: promise.splits)

lemma sms_block_never_rejects:
  "try_catch_await (sms_block_try env) (\<lambda>error. Failed) \<noteq> Rejects err"
  by (simp add: try_catch_await_def split: promise.splits)

lemma email_block_unsettled:
  "try_catch_await (email_block_try env) (\<lambda>error. Failed) = NeverSettles
     \<longleftrightarrow> \<not> email_settles env"
  by (simp add: try_catch_await_def email_block_try_def sendEmailNotification_def
      email_try_def email_settles_def split: promise.splits)

lemma email_block_settled:
  "try_catch_await (email_block_try env) (\<lambda>error. Failed) \<noteq> Resolves Unsettled"
  by (simp add: try_catch_await_def email_block_try_def sendEmailNotification_def
      email_try_def split: promise.splits)

lemma email_block_delivered:
  "try_catch_await (email_block_try env) (\<lambda>error. Failed) = Resolves Delivered
     \<longleftrightarrow> email_import env = Resolves () \<and> emailjs_configured env
         \<and> emailjs_send env = Resolves ()"
  by (simp add: try_catch_await_def email_block_try_def sendEmailNotification_def
      email_try_def split: promise.splits)

lemma sms_block_delivered:
  "try_catch_await (sms_block_try env) (\<lambda>error. Failed) = Resolves Delivered
     \<longleftrightarrow> sms_import env = Resolves () \<and> twilio_configured env
         \<and> (\<exists>message. twilio_fetch env = TwilioResponse True message)"
  by (simp add: try_catch_await_def sms_block_try_def sendSMSNotification_def
      sms_try_def split: promise.splits twilio_reply.splits)

lemma browser_block_outcome:
  "try_catch (browser_try env) (\<lambda>err. Failed)
     = (if notification_defined env \<and> notification_granted env \<and> notification_new env = None
        then Delivered
        else if notification_defined env \<and> \<not> notification_granted env then NotDelivered
        else Failed)"
  by (simp add: try_catch_def browser_try_def split: option.splits)

lemma run_blocks_three:
  "run_blocks ([(Browser, Resolves b)] @ es @ ss) = (Browser, b) # run_blocks (es @ ss)"
  by simp

lemma sendNotification_browser:
  "map_of (sendNotification env r) Browser
     = Some (try_catch (browser_try env) (\<lambda>err. Failed))"
  by (simp add: sendNotification_def)

lemma sendNotification_email_attempted:
  "Email \<in> fst ` set (sendNotification env r) \<longleftrightarrow> emailNotification r"
proof (cases "try_catch_await (email_block_try env) (\<lambda>error. Failed)")
  case (Resolves out)
  then show ?thesis
    by (cases "try_catch_await (sms_block_try env) (\<lambda>error. Failed)")
       (auto simp: sendNotification_def)
next
  case (Rejects err)
  then show ?thesis by (simp add: email_block_never_rejects)
next
  case NeverSettles
  then show ?thesis
    by (cases "try_catch_await (sms_block_try env) (\<lambda>error. Failed)")
       (auto simp: sendNotification_def)
qed

lemma sendNotification_sms_attempted:
  "SMS \<in> fst ` set (sendNotification env r)
     \<longleftrightarrow> smsNotification r \<and> truthy (phoneNumber r)
         \<and> (emailNotification r \<longrightarrow> email_settles env)"
proof (cases "try_catch_await (email_block_try env) (\<lambda>error. Failed)")
  case (Resolves out)
  then have "email_settles env"
    using email_block_unsettled [of env] by simp
  with Resolves show ?thesis
    by (cases "try_catch_await (sms_block_try env) (\<lambda>error. Failed)")
       (auto simp: sendNotification_def)
next
  case (Rejects err)
  then show ?thesis by (simp add: email_block_never_rejects)
next
  case NeverSettles
  then have "\<not> email_settles env"
    using email_block_unsettled [of env] by simp
  with NeverSettles show ?thesis
    by (cases "try_catch_await (sms_block_try env) (\<lambda>error. Failed)")
       (auto simp: sendNotification_def)
qed

lemma sendNotification_email_outcome:
  "map_of (sendNotification env r) Email
     = (if emailNotification r
        then (case try_catch_await (email_block_try env) (\<lambda>error. Failed) of
                Resolves out \<Rightarrow> Some out | Rejects err \<Rightarrow> Some Failed
              | NeverSettles \<Rightarrow> Some Unsettled)
        else None)"
  by (cases "try_catch_await (email_block_try env) (\<lambda>error. Failed)";
      cases "try_catch_await (sms_block_try env) (\<lambda>error. Failed)")
     (simp_all add: sendNotification_def)

lemma sendNotification_sms_outcome:
  "map_of (sendNotification env r) SMS
     = (if smsNotification r \<and> truthy (phoneNumber r)
           \<and> (emailNotification r \<longrightarrow> email_settles env)
        then (case try_catch_await (sms_block_try env) (\<lambda>error. Failed) of
                Resolves out \<Rightarrow> Some out | Rejects err \<Rightarrow> Some Failed
              | NeverSettles \<Rightarrow> Some Unsettled)
        else None)"
proof (cases "try_catch_await (email_block_try env) (\<lambda>error. Failed)")
  case (Resolves out)
  then have "email_settles env"
    using email_block_unsettled [of env] by simp
  with Resolves show ?thesis
    by (cases "try_catch_await (sms_block_try env) (\<lambda>error. Failed)")
       (simp_all add: sendNotification_def)
next
  case (Rejects err)
  then show ?thesis by (simp add: email_block_never_rejects)
next
  case NeverSettles
  then have "\<not> email_settles env"
    using email_block_unsettled [of env] by simp
  with NeverSettles show ?thesis
    by (cases "try_catch_await (sms_block_try env) (\<lambda>error. Failed)")
       (simp_all add: sendNotification_def)
qed

text \<open>
  Claim C3, amended. For a due reminder (not complete, not notified, its instant passed)
  met by a due-check, whatever the channels do, also when a call never settles: the pass
  marks the reminder as notified and the dispatch is among its calls of
  \<^verbatim>\<open>sendNotification\<close>. In that dispatch the browser channel is attempted, and delivers
  exactly when \<^verbatim>\<open>Notification\<close> is defined, granted and does not throw; the e-mail
  channel is attempted exactly when the reminder asks for e-mail, and delivers exactly
  when its import resolves, EmailJS is configured and \<^verbatim>\<open>emailjs.send\<close> resolves; the
  SMS channel is attempted exactly when the reminder asks for SMS, has a phone number and
  the e-mail block, if there is one, comes to an end (by delivering, by reporting that
  nothing was sent, or by throwing), and it then delivers exactly when its import
  resolves, Twilio is configured and Twilio answers with an ok response. An e-mail block
  that never comes to an end stays unsettled, and the SMS channel is then not attempted.
\<close>

theorem sendNotification_fan_out:
  assumes "i < length (reminders p)" and "reminders p ! i = r"
    and "\<not> notificationSent r" and "\<not> isComplete r"
    and "isAfter now (reminderDateTime parseISO r)"
  shows "reminders (checkReminders parseISO env now p) ! i = r \<lparr> notificationSent := True \<rparr>
       \<and> (r, sendNotification env r) \<in> set (dispatched (checkReminders parseISO env now p))
       \<and> map_of (sendNotification env r) Browser
           = Some (if notification_defined env \<and> notification_granted env
                      \<and> notification_new env = None then Delivered
                   else if notification_defined env \<and> \<not> notification_granted env
                   then NotDelivered else Failed)
       \<and> (Email \<in> fst ` set (sendNotification env r) \<longleftrightarrow> emailNotification r)
       \<and> (SMS \<in> fst ` set (sendNotification env r)
            \<longleftrightarrow> smsNotification r \<and> truthy (phoneNumber r)
                \<and> (emailNotification r \<longrightarrow> email_settles env))
       \<and> (map_of (sendNotification env r) Email = Some Delivered
            \<longleftrightarrow> emailNotification r \<and> email_import env = Resolves ()
                \<and> emailjs_configured env \<and> emailjs_send env = Resolves ())
       \<and> (map_of (sendNotification env r) Email = Some Unsettled
            \<longleftrightarrow> emailNotification r \<and> \<not> email_settles env)
       \<and> (map_of (sendNotification env r) SMS = Some Delivered
            \<longleftrightarrow> smsNotification r \<and> truthy (phoneNumber r)
                \<and> (emailNotification r \<longrightarrow> email_settles env)
                \<and> sms_import env = Resolves () \<and> twilio_configured env
                \<and> (\<exists>message. twilio_fetch env = TwilioResponse True message))"
proof -
  have fires: "checkReminder parseISO now r = (r \<lparr> notificationSent := True \<rparr>, True)"
    using assms(3,4,5) by (simp add: checkReminder_cases)
  have mem: "r \<in> set (reminders p)"
    using assms(1,2) nth_mem by blast
  have 1: "reminders (checkReminders parseISO env now p) ! i
      = r \<lparr> notificationSent := True \<rparr>"
    using assms(1,2) fires by (simp add: checkReminders_reminders)
  have 2: "(r, sendNotification env r)
      \<in> set (dispatched (checkReminders parseISO env now p))"
    using mem fires by (simp add: checkReminders_dispatched)
  have 3: "map_of (sendNotification env r) Browser
           = Some (if notification_defined env \<and> notification_granted env
                      \<and> notification_new env = None then Delivered
                   else if notification_defined env \<and> \<not> notification_granted env
                   then NotDelivered else Failed)"
    by (simp only: sendNotification_browser browser_block_outcome)
  note 4 = sendNotification_email_attempted [of env r]
  note 5 = sendNotification_sms_attempted [of env r]
  have 6: "map_of (sendNotification env r) Email = Some Delivered
            \<longleftrightarrow> emailNotification r \<and> email_import env = Resolves ()
                \<and> emailjs_configured env \<and> emailjs_send env = Resolves ()"
    using email_block_delivered [of env]
    by (cases "try_catch_await (email_block_try env) (\<lambda>error. Failed)")
       (auto simp: sendNotification_email_outcome)
  have 7: "map_of (sendNotification env r) Email = Some Unsettled
            \<longleftrightarrow> emailNotification r \<and> \<not> email_settles env"
    using email_block_unsettled [of env] email_block_settled [of env]
    by (cases "try_catch_await (email_block_try env) (\<lambda>error. Failed)")
       (auto simp: sendNotification_email_outcome)
  have 8: "map_of (sendNotification env r) SMS = Some Delivered
            \<longleftrightarrow> smsNotification r \<and> truthy (phoneNumber r)
                \<and> (emailNotification r \<longrightarrow> email_settles env)
                \<and> sms_import env = Resolves () \<and> twilio_configured env
                \<and> (\<exists>message. twilio_fetch env = TwilioResponse True message)"
    using sms_block_delivered [of env]
    by (cases "try_catch_await (sms_block_try env) (\<lambda>error. Failed)")
       (auto simp: sendNotification_sms_outcome)
  from 1 2 3 4 5 6 7 8 show ?thesis by (intro conjI)
qed

text \<open>
  With an e-mail channel that throws, the browser and SMS channels still deliver and the
  reminder is marked; with one that never settles, the reminder is marked all the same.
\<close>

theorem sendNotification_fan_out_witness:
  "0 < length (reminders (panel_of [dentist])) \<and> reminders (panel_of [dentist]) ! 0 = dentist
   \<and> \<not> notificationSent dentist \<and> \<not> isComplete dentist
   \<and> isAfter 1704877260000 (reminderDateTime parse0 dentist)
   \<and> sendNotification email_broken dentist
        = [(Browser, Delivered), (Email, Failed), (SMS, Delivered)]
   \<and> (dentist, [(Browser, Delivered), (Email, Failed), (SMS, Delivered)])
        \<in> set (dispatched (checkReminders parse0 email_broken 1704877260000 (panel_of [dentist])))
   \<and> reminders (checkReminders parse0 email_broken 1704877260000 (panel_of [dentist])) ! 0
        = dentist \<lparr> notificationSent := True \<rparr>
   \<and> email_settles email_broken
   \<and> map_of (sendNotification email_broken dentist) SMS = Some Delivered
   \<and> reminders (checkReminders parse0 email_silent 1704877260000 (panel_of [dentist])) ! 0
        = dentist \<lparr> notificationSent := True \<rparr>"
proof -
  have s: "sendNotification email_broken dentist
      = [(Browser, Delivered), (Email, Failed), (SMS, Delivered)]"
    by (simp add: sendNotification_def email_broken_def dentist_def try_catch_def
        try_catch_await_def browser_try_def email_block_try_def sms_block_try_def
        sendSMSNotification_def sms_try_def truthy_def)
  have h: "isAfter 1704877260000 (reminderDateTime parse0 dentist)"
    by (simp add: isAfter_def reminderDateTime_def parse0_def dentist_def)
  have e: "email_settles email_broken"
    by (simp add: email_settles_def email_broken_def)
  show ?thesis
    using sendNotification_fan_out [of 0 "panel_of [dentist]" dentist 1704877260000 parse0
        email_broken]
      sendNotification_fan_out [of 0 "panel_of [dentist]" dentist 1704877260000 parse0
        email_silent] h s e
    by (simp add: panel_of_def dentist_def)
qed

text \<open>
  When \<^verbatim>\<open>emailjs.send\<close> never settles, the SMS channel of a reminder that asks for SMS is
  not attempted.
\<close>

theorem sendNotification_fan_out_counterexample:
  "smsNotification dentist \<and> truthy (phoneNumber dentist)
   \<and> sendNotification email_silent dentist = [(Browser, Delivered), (Email, Unsettled)]"
  by (simp add: sendNotification_def email_silent_def dentist_def try_catch_def
      try_catch_await_def browser_try_def email_block_try_def sendEmailNotification_def
      email_try_def truthy_def)

text \<open>
  Claim C10. A due-check keeps the length of the list; every reminder that is complete,
  already notified or not due is the same afterwards; and when the flag of some reminder
  changed in the pass, the list is written to the store once and the store holds the new
  list, and otherwise nothing is written and the store holds what it held.
\<close>

theorem checkReminders_frame:
  "length (reminders (checkReminders parseISO env now p)) = length (reminders p)
   \<and> (\<forall>i < length (reminders p).
        isComplete (reminders p ! i) \<or> notificationSent (reminders p ! i)
          \<or> \<not> isAfter now (reminderDateTime parseISO (reminders p ! i))
        \<longrightarrow> reminders (checkReminders parseISO env now p) ! i = reminders p ! i)
   \<and> (if \<exists>i < length (reminders p).
            notificationSent (reminders (checkReminders parseISO env now p) ! i)
              \<noteq> notificationSent (reminders p ! i)
       then writes (checkReminders parseISO env now p) = Suc (writes p)
          \<and> stored (checkReminders parseISO env now p)
              = Some (reminders (checkReminders parseISO env now p))
       else writes (checkReminders parseISO env now p) = writes p
          \<and> stored (checkReminders parseISO env now p) = stored p)"
proof -
  let ?p' = "checkReminders parseISO env now p"
  let ?changed = "\<exists>i < length (reminders p).
      notificationSent (reminders ?p' ! i) \<noteq> notificationSent (reminders p ! i)"
  have len: "length (reminders ?p') = length (reminders p)"
    by (simp add: checkReminders_reminders)
  have frame: "\<forall>i < length (reminders p).
        isComplete (reminders p ! i) \<or> notificationSent (reminders p ! i)
          \<or> \<not> isAfter now (reminderDateTime parseISO (reminders p ! i))
        \<longrightarrow> reminders ?p' ! i = reminders p ! i"
    using checkReminder_frame by (simp add: checkReminders_nth)
  have "?changed
        \<longleftrightarrow> (\<exists>i < length (reminders p). snd (checkReminder parseISO now (reminders p ! i)))"
    by (simp add: checkReminders_nth flag_flips_iff cong: conj_cong)
  also have "\<dots> \<longleftrightarrow> (\<exists>r \<in> set (reminders p). snd (checkReminder parseISO now r))"
    by (metis in_set_conv_nth)
  finally have changed:
    "?changed \<longleftrightarrow> (\<exists>r \<in> set (reminders p). snd (checkReminder parseISO now r))" .
  have sto: "stored ?p' = Some (reminders ?p')" and wr: "writes ?p' = Suc (writes p)"
    if c: "?changed"
  proof -
    have ex: "\<exists>r \<in> set (reminders p). snd (checkReminder parseISO now r)"
      using c by (rule iffD1 [OF changed])
    have "writes ?p' = Suc (writes p) \<and> stored ?p'
        = Some (map (\<lambda>r. fst (checkReminder parseISO now r)) (reminders p))"
      using checkReminders_store [of p parseISO now env] by (simp only: ex if_True)
    then show "stored ?p' = Some (reminders ?p')" and "writes ?p' = Suc (writes p)"
      by (simp_all add: checkReminders_reminders)
  qed
  have sto': "stored ?p' = stored p" and wr': "writes ?p' = writes p"
    if c: "\<not> ?changed"
  proof -
    have nex: "\<not> (\<exists>r \<in> set (reminders p). snd (checkReminder parseISO now r))"
      using c unfolding changed .
    have "writes ?p' = writes p \<and> stored ?p' = stored p"
      using checkReminders_store [of p parseISO now env] by (simp only: nex if_False)
    then show "stored ?p' = stored p" and "writes ?p' = writes p"
      by simp_all
  qed
  show ?thesis
  proof (cases ?changed)
    case True
    with len frame sto wr show ?thesis by simp
  next
    case False
    with len frame sto' wr' show ?thesis by simp
  qed
qed

theorem checkReminders_frame_witness:
  "(1::nat) < length (reminders (panel_of [dentist, done_reminder]))
   \<and> isComplete (reminders (panel_of [dentist, done_reminder]) ! 1)
   \<and> reminders (checkReminders parse0 email_broken 1704877260000
        (panel_of [dentist, done_reminder])) ! 1 = done_reminder
   \<and> notificationSent (reminders (checkReminders parse0 email_broken 1704877260000
        (panel_of [dentist, done_reminder])) ! 0) \<noteq> notificationSent dentist
   \<and> writes (checkReminders parse0 email_broken 1704877260000
        (panel_of [dentist, done_reminder])) = 1
   \<and> writes (checkReminders parse0 email_broken 1704877200000
        (panel_of [dentist, done_reminder])) = 0"
  using checkReminders_frame [of parse0 email_broken 1704877260000
      "panel_of [dentist, done_reminder]"]
    checkReminders_frame [of parse0 email_broken 1704877200000
      "panel_of [dentist, done_reminder]"]
  by (simp add: checkReminders_def Let_def checkReminder_cases isAfter_def
      reminderDateTime_def parse0_def dentist_def done_reminder_def panel_of_def
      saveReminders_def)

lemma handleUpdateReminder_reminders:
  "reminders (handleUpdateReminder u p)
     = map (\<lambda>r. if rid r = rid u then u else r) (reminders p)"
  by (simp add: handleUpdateReminder_def saveReminders_def)

lemma handleUpdateReminder_stored:
  "stored (handleUpdateReminder u p) = Some (reminders (handleUpdateReminder u p))"
  by (simp add: handleUpdateReminder_def saveReminders_def)

lemma handleUpdateReminder_replaced:
  "r \<in> set (reminders (handleUpdateReminder u p)) \<Longrightarrow> rid r = rid u \<Longrightarrow> r = u"
  by (auto simp: handleUpdateReminder_reminders split: if_splits)

lemma handleUpdateReminder_present:
  "e \<in> set (reminders p) \<Longrightarrow> rid e = rid u \<Longrightarrow> u \<in> set (reminders (handleUpdateReminder u p))"
  by (auto simp: handleUpdateReminder_reminders image_iff intro!: bexI [of _ e])

lemma strip_start_none:
  "leading_white_space table s = 0 \<Longrightarrow> strip_start table s = s"
  by (subst strip_start.simps) simp

lemma js_trim_Dentist: "js_trim ''Dentist'' = ''Dentist''"
proof -
  have 1: "leading_white_space white_space ''Dentist'' = 0"
    by (simp add: leading_white_space_def white_space_def)
  have 2: "leading_white_space (map rev white_space) (rev ''Dentist'') = 0"
    by (simp add: leading_white_space_def white_space_def)
  show ?thesis
    by (simp only: js_trim_def strip_start_none [OF 1] strip_start_none [OF 2] rev_rev_ident)
qed

lemma js_trim_Nil: "js_trim [] = []"
proof -
  have 1: "leading_white_space white_space [] = 0"
    by (simp add: leading_white_space_def white_space_def)
  have 2: "leading_white_space (map rev white_space) [] = 0"
    by (simp add: leading_white_space_def white_space_def)
  show ?thesis
    using strip_start_none [OF 1] strip_start_none [OF 2] by (simp add: js_trim_def)
qed

text \<open>
  Claim C9. Editing a reminder of the list through the form (a title that \<^verbatim>\<open>trim\<close> does
  not empty, a date and a time) stores the list, the list then holds a reminder with the id of the edited one, and
  every reminder with that id has the date and time of the form, is not complete and has
  \<^verbatim>\<open>notificationSent = false\<close>: the next due-check calls \<^verbatim>\<open>sendNotification\<close> for it
  exactly when its new instant has passed.
\<close>

theorem handleSubmit_resets_notificationSent:
  assumes "editing \<in> set (reminders p)"
    and "trim (form_title f) \<noteq> []" and "form_date f \<noteq> []" and "form_time f \<noteq> []"
  shows "(\<exists>r \<in> set (reminders (handleSubmit trim new_id f (Some editing) p)). rid r = rid editing)
       \<and> (\<forall>r \<in> set (reminders (handleSubmit trim new_id f (Some editing) p)).
            rid r = rid editing \<longrightarrow>
              \<not> notificationSent r \<and> \<not> isComplete r
              \<and> rdate r = form_date f \<and> rtime r = form_time f
              \<and> snd (checkReminder parseISO now r) = isAfter now (reminderDateTime parseISO r))
       \<and> stored (handleSubmit trim new_id f (Some editing) p)
           = Some (reminders (handleSubmit trim new_id f (Some editing) p))"
proof -
  define u where "u = (reminderData trim f) \<lparr> rid := rid editing \<rparr>"
  have sub: "handleSubmit trim new_id f (Some editing) p = handleUpdateReminder u p"
    using assms(2,3,4) by (simp add: handleSubmit_def u_def)
  have u: "rid u = rid editing" "\<not> notificationSent u" "\<not> isComplete u"
      "rdate u = form_date f" "rtime u = form_time f"
    by (simp_all add: reminderData_def u_def)
  have fires: "snd (checkReminder parseISO now u) = isAfter now (reminderDateTime parseISO u)"
    using u(2,3) by (simp add: checkReminder_cases)
  have "u \<in> set (reminders (handleUpdateReminder u p))"
    using assms(1) u(1) by (simp add: handleUpdateReminder_present)
  then have ex: "\<exists>r \<in> set (reminders (handleUpdateReminder u p)). rid r = rid editing"
    using u(1) by (rule_tac bexI)
  have all: "\<forall>r \<in> set (reminders (handleUpdateReminder u p)).
            rid r = rid editing \<longrightarrow>
              \<not> notificationSent r \<and> \<not> isComplete r
              \<and> rdate r = form_date f \<and> rtime r = form_time f
              \<and> snd (checkReminder parseISO now r) = isAfter now (reminderDateTime parseISO r)"
  proof (intro ballI impI)
    fix r
    assume "r \<in> set (reminders (handleUpdateReminder u p))" and "rid r = rid editing"
    then have "r = u"
      using u(1) by (simp add: handleUpdateReminder_replaced)
    with u fires show "\<not> notificationSent r \<and> \<not> isComplete r
              \<and> rdate r = form_date f \<and> rtime r = form_time f
              \<and> snd (checkReminder parseISO now r) = isAfter now (reminderDateTime parseISO r)"
      by simp
  qed
  have st: "stored (handleUpdateReminder u p) = Some (reminders (handleUpdateReminder u p))"
    by (rule handleUpdateReminder_stored)
  show ?thesis
    unfolding sub by (intro conjI ex all st)
qed

theorem handleSubmit_resets_notificationSent_witness:
  "sent_dentist \<in> set (reminders (panel_of [sent_dentist]))
   \<and> notificationSent sent_dentist
   \<and> js_trim (form_title reschedule) \<noteq> [] \<and> form_date reschedule \<noteq> []
   \<and> form_time reschedule \<noteq> []
   \<and> reminders (handleSubmit js_trim ''n'' reschedule (Some sent_dentist) (panel_of [sent_dentist]))
       = [\<lparr> rid = ''r1'', rtitle = ''Dentist'', rdate = ''2024-02-01'', rtime = ''10:30'',
            rdescription = Some [], isComplete = False, notificationSent = False,
            emailNotification = True, smsNotification = False, phoneNumber = None \<rparr>]"
  using handleSubmit_resets_notificationSent [of sent_dentist "panel_of [sent_dentist]"
      js_trim reschedule "''n''" parse0 0]
  by (simp add: handleSubmit_def handleUpdateReminder_def saveReminders_def reminderData_def
      reschedule_def sent_dentist_def dentist_def panel_of_def js_trim_Dentist js_trim_Nil)

section \<open>The calendar service\<close>

lemma requestAccess_calendar_requests:
  "requestAccess w s = Some (s1, r) \<Longrightarrow> calendar_requests s1 = calendar_requests s"
  by (auto simp: requestAccess_def init_def requestAccessToken_def calendar_requests_def
      split: sum.splits token_reply.splits option.splits if_splits)

lemma refresh_calendar_requests:
  "refreshTokenIfNeeded w now s = Some (s1, r) \<Longrightarrow> calendar_requests s1 = calendar_requests s"
  by (auto simp: refreshTokenIfNeeded_def requestAccess_calendar_requests split: if_splits)

lemma requestAccess_failed:
  "requestAccess w s = Some (s1, Inl err)
     \<Longrightarrow> accessToken s1 = accessToken s \<and> tokenExpiry s1 = tokenExpiry s"
  by (auto simp: requestAccess_def init_def requestAccessToken_def
      split: sum.splits token_reply.splits option.splits if_splits)

lemma refresh_failed:
  "refreshTokenIfNeeded w now s = Some (s1, Inl err)
     \<Longrightarrow> accessToken s1 = accessToken s \<and> tokenExpiry s1 = tokenExpiry s"
  by (auto simp: refreshTokenIfNeeded_def requestAccess_failed split: if_splits)

lemma not_ok_unauthenticated:
  "body_error b = Some e \<Longrightarrow> err_status e = Some ''UNAUTHENTICATED'' \<or> err_code e = Some 401
     \<Longrightarrow> not_ok (Some b) fallback s
         = (s \<lparr> accessToken := None, tokenExpiry := None \<rparr>, Error ''authentication expired'')"
  by (simp add: not_ok_def unauthenticated_def)

lemma not_ok_calls: "not_ok body fallback s = (s3, err) \<Longrightarrow> calls s3 = calls s"
  by (auto simp: not_ok_def split: option.splits if_splits)

lemma getEvents_after_refresh:
  assumes "refreshTokenIfNeeded w now s = Some (s1, Inr ())"
  shows "\<exists>s' r. getEvents w now s = Some (s', r)
     \<and> (calls s' = calls s1
        \<or> (\<exists>token. truthy_value (accessToken s1) = Some token
              \<and> calls s' = calls s1 @ [ListRequest token]))"
proof (cases "truthy_value (accessToken s1)")
  case None
  then show ?thesis using assms by (simp add: getEvents_def)
next
  case (Some token)
  show ?thesis
  proof (cases "http_answer w")
    case NetworkError
    then show ?thesis using assms Some by (simp add: getEvents_def Let_def)
  next
    case (Response ok body)
    show ?thesis
    proof (cases ok)
      case True
      then show ?thesis using assms Some Response
        by (cases body) (simp_all add: getEvents_def Let_def)
    next
      case False
      obtain s3 err where n: "not_ok body ''Failed to fetch events''
          (s1 \<lparr> calls := calls s1 @ [ListRequest token] \<rparr>) = (s3, err)"
        by (cases "not_ok body ''Failed to fetch events''
          (s1 \<lparr> calls := calls s1 @ [ListRequest token] \<rparr>)") 
      then have "calls s3 = calls s1 @ [ListRequest token]"
        using not_ok_calls by fastforce
      then show ?thesis using assms Some Response False n
        by (simp add: getEvents_def Let_def)
    qed
  qed
qed

text \<open>
  Claim C5. When \<^verbatim>\<open>getEvents\<close> or \<^verbatim>\<open>addEvent\<close> has sent its request with the token
  \<open>token\<close> and the response is not ok, with a body whose error has the status
  UNAUTHENTICATED or the code 401, the call clears the access token and the expiry and
  throws \<^verbatim>\<open>authentication expired\<close>; the one request it sent is the only calendar request
  of the call.
\<close>

theorem unauthenticated_clears_credential:
  assumes "refreshTokenIfNeeded w now s = Some (s1, Inr ())"
    and "truthy_value (accessToken s1) = Some token"
    and "http_answer w = Response False (Some b)"
    and "body_error b = Some e"
    and "err_status e = Some ''UNAUTHENTICATED'' \<or> err_code e = Some 401"
  shows "getEvents w now s =
           Some (s1 \<lparr> calls := calls s1 @ [ListRequest token],
                      accessToken := None, tokenExpiry := None \<rparr>,
                 Inl (Error ''authentication expired''))
       \<and> addEvent w event now s =
           Some (s1 \<lparr> calls := calls s1 @
                        [CreateRequest token
                           (title event, description event,
                            date event @ ''T'' @ startTime event @ '':00'',
                            date event @ ''T'' @ endTime event @ '':00'')],
                      accessToken := None, tokenExpiry := None \<rparr>,
                 Inl (Error ''authentication expired''))
       \<and> calendar_requests (s1 \<lparr> calls := calls s1 @ [ListRequest token],
                                   accessToken := None, tokenExpiry := None \<rparr>)
           = calendar_requests s @ [ListRequest token]"
proof -
  have g: "getEvents w now s =
           Some (s1 \<lparr> calls := calls s1 @ [ListRequest token],
                      accessToken := None, tokenExpiry := None \<rparr>,
                 Inl (Error ''authentication expired''))"
    using assms(1,2,3)
    by (simp add: getEvents_def Let_def not_ok_unauthenticated [OF assms(4,5)])
  have a: "addEvent w event now s =
           Some (s1 \<lparr> calls := calls s1 @
                        [CreateRequest token
                           (title event, description event,
                            date event @ ''T'' @ startTime event @ '':00'',
                            date event @ ''T'' @ endTime event @ '':00'')],
                      accessToken := None, tokenExpiry := None \<rparr>,
                 Inl (Error ''authentication expired''))"
    using assms(1,2,3)
    by (simp add: addEvent_def Let_def not_ok_unauthenticated [OF assms(4,5)])
  have c: "calendar_requests (s1 \<lparr> calls := calls s1 @ [ListRequest token],
                                   accessToken := None, tokenExpiry := None \<rparr>)
           = calendar_requests s @ [ListRequest token]"
    using refresh_calendar_requests [OF assms(1)] by (simp add: calendar_requests_def)
  from g a c show ?thesis by (intro conjI)
qed

theorem unauthenticated_clears_credential_witness:
  "refreshTokenIfNeeded rejected 1000000 fresh = Some (fresh, Inr ())
   \<and> truthy_value (accessToken fresh) = Some ''token''
   \<and> http_answer rejected = Response False
       (Some \<lparr> body_error = Some \<lparr> err_status = Some ''UNAUTHENTICATED'', err_code = Some 401,
                                     err_message = Some ''Invalid Credentials'' \<rparr>,
               body_items = None, body_event = no_event \<rparr>)
   \<and> getEvents rejected 1000000 fresh =
       Some (\<lparr> tokenClient = True, accessToken = None, tokenExpiry = None,
               calls = [ListRequest ''token''] \<rparr>,
             Inl (Error ''authentication expired''))
   \<and> addEvent rejected standup 1000000 fresh =
       Some (\<lparr> tokenClient = True, accessToken = None, tokenExpiry = None,
               calls = [CreateRequest ''token''
                 (''Standup'', [], ''2024-01-10T09:00:00'', ''2024-01-10T09:15:00'')] \<rparr>,
             Inl (Error ''authentication expired''))"
proof -
  have r: "refreshTokenIfNeeded rejected 1000000 fresh = Some (fresh, Inr ())"
    by (simp add: refreshTokenIfNeeded_def needs_refresh_def fresh_def)
  have t: "truthy_value (accessToken fresh) = Some ''token''"
    by (simp add: truthy_value_def fresh_def)
  have h: "http_answer rejected = Response False
       (Some \<lparr> body_error = Some \<lparr> err_status = Some ''UNAUTHENTICATED'', err_code = Some 401,
                                     err_message = Some ''Invalid Credentials'' \<rparr>,
               body_items = None, body_event = no_event \<rparr>)"
    by (simp add: rejected_def)
  show ?thesis
    using unauthenticated_clears_credential [OF r t h, of _ standup] r t h
    by (simp add: fresh_def standup_def)
qed

text \<open>
  Claim C6, amended. \<^verbatim>\<open>getEvents\<close> and \<^verbatim>\<open>addEvent\<close> run \<^verbatim>\<open>refreshTokenIfNeeded\<close> first.
  It asks for a token when no expiry is recorded or less than 60 seconds remain, and does
  not when an expiry (other than 0) is recorded and more than 60 seconds remain; it asks
  by \<^verbatim>\<open>requestAccess\<close> and does nothing otherwise. When the refresh throws, the call throws
  the error of the refresh itself (not \<^verbatim>\<open>authentication expired\<close>), sends no calendar
  request and leaves token and expiry as they were; when the refresh never settles,
  neither does the call; and when the refresh returns, \<^verbatim>\<open>getEvents\<close> returns or throws
  after at most one calendar request, sent after the refresh with the token the refresh
  left.
\<close>

theorem refresh_before_calendar_request:
  "(tokenExpiry s = None \<longrightarrow> needs_refresh now s)
   \<and> (\<forall>expiry. tokenExpiry s = Some expiry \<and> expiry - now < 60000 \<longrightarrow> needs_refresh now s)
   \<and> (\<forall>expiry. tokenExpiry s = Some expiry \<and> expiry \<noteq> 0 \<and> 60000 < expiry - now
        \<longrightarrow> \<not> needs_refresh now s)
   \<and> (\<not> needs_refresh now s \<longrightarrow> refreshTokenIfNeeded w now s = Some (s, Inr ()))
   \<and> (needs_refresh now s \<longrightarrow> refreshTokenIfNeeded w now s = requestAccess w s)
   \<and> (\<forall>s1 err. refreshTokenIfNeeded w now s = Some (s1, Inl err) \<longrightarrow>
         getEvents w now s = Some (s1, Inl err)
         \<and> addEvent w event now s = Some (s1, Inl err)
         \<and> calendar_requests s1 = calendar_requests s
         \<and> accessToken s1 = accessToken s \<and> tokenExpiry s1 = tokenExpiry s)
   \<and> (refreshTokenIfNeeded w now s = None \<longrightarrow>
         getEvents w now s = None \<and> addEvent w event now s = None)
   \<and> (\<forall>s1. refreshTokenIfNeeded w now s = Some (s1, Inr ()) \<longrightarrow>
         (\<exists>s' r. getEvents w now s = Some (s', r)
            \<and> (calls s' = calls s1
               \<or> (\<exists>token. truthy_value (accessToken s1) = Some token
                     \<and> calls s' = calls s1 @ [ListRequest token]))))"
proof -
  have 1: "tokenExpiry s = None \<longrightarrow> needs_refresh now s"
    by (simp add: needs_refresh_def)
  have 2: "\<forall>expiry. tokenExpiry s = Some expiry \<and> expiry - now < 60000 \<longrightarrow> needs_refresh now s"
    by (simp add: needs_refresh_def)
  have 3: "\<forall>expiry. tokenExpiry s = Some expiry \<and> expiry \<noteq> 0 \<and> 60000 < expiry - now
        \<longrightarrow> \<not> needs_refresh now s"
    by (simp add: needs_refresh_def)
  have 4: "\<not> needs_refresh now s \<longrightarrow> refreshTokenIfNeeded w now s = Some (s, Inr ())"
    by (simp add: refreshTokenIfNeeded_def)
  have 5: "needs_refresh now s \<longrightarrow> refreshTokenIfNeeded w now s = requestAccess w s"
    by (simp add: refreshTokenIfNeeded_def)
  have 6: "\<forall>s1 err. refreshTokenIfNeeded w now s = Some (s1, Inl err) \<longrightarrow>
         getEvents w now s = Some (s1, Inl err)
         \<and> addEvent w event now s = Some (s1, Inl err)
         \<and> calendar_requests s1 = calendar_requests s
         \<and> accessToken s1 = accessToken s \<and> tokenExpiry s1 = tokenExpiry s"
  proof (intro allI impI)
    fix s1 err
    assume f: "refreshTokenIfNeeded w now s = Some (s1, Inl err)"
    have "getEvents w now s = Some (s1, Inl err)"
      by (simp add: getEvents_def f)
    moreover have "addEvent w event now s = Some (s1, Inl err)"
      by (simp add: addEvent_def f)
    ultimately show "getEvents w now s = Some (s1, Inl err)
         \<and> addEvent w event now s = Some (s1, Inl err)
         \<and> calendar_requests s1 = calendar_requests s
         \<and> accessToken s1 = accessToken s \<and> tokenExpiry s1 = tokenExpiry s"
      using refresh_calendar_requests [OF f] refresh_failed [OF f] by simp
  qed
  have 7: "refreshTokenIfNeeded w now s = None \<longrightarrow>
         getEvents w now s = None \<and> addEvent w event now s = None"
    by (simp add: getEvents_def addEvent_def)
  have 8: "\<forall>s1. refreshTokenIfNeeded w now s = Some (s1, Inr ()) \<longrightarrow>
         (\<exists>s' r. getEvents w now s = Some (s', r)
            \<and> (calls s' = calls s1
               \<or> (\<exists>token. truthy_value (accessToken s1) = Some token
                     \<and> calls s' = calls s1 @ [ListRequest token])))"
    using getEvents_after_refresh by blast
  from 1 2 3 4 5 6 7 8 show ?thesis by (intro conjI)
qed

theorem refresh_before_calendar_request_witness:
  "tokenExpiry signed_out = None \<and> needs_refresh 1000000 signed_out
   \<and> tokenExpiry expiring = Some 1030000 \<and> (1030000::int) - 1000000 < 60000
   \<and> needs_refresh 1000000 expiring
   \<and> tokenExpiry fresh = Some 2000000 \<and> (2000000::int) \<noteq> 0 \<and> (60000::int) < 2000000 - 1000000
   \<and> \<not> needs_refresh 1000000 fresh
   \<and> refreshTokenIfNeeded denied 1000000 fresh = Some (fresh, Inr ())
   \<and> getEvents denied 1000000 fresh
       = Some (fresh \<lparr> calls := [ListRequest ''token''] \<rparr>, Inr [])
   \<and> refreshTokenIfNeeded denied 1000000 expiring
       = Some (expiring \<lparr> calls := [TokenRequest] \<rparr>, Inl (Error ''access_denied''))
   \<and> addEvent denied standup 1000000 expiring
       = Some (expiring \<lparr> calls := [TokenRequest] \<rparr>, Inl (Error ''access_denied''))
   \<and> calendar_requests (expiring \<lparr> calls := [TokenRequest] \<rparr>) = []
   \<and> refreshTokenIfNeeded popup_closed 1000000 expiring = None
   \<and> getEvents popup_closed 1000000 expiring = None"
proof -
  have f: "refreshTokenIfNeeded denied 1000000 expiring
       = Some (expiring \<lparr> calls := [TokenRequest] \<rparr>, Inl (Error ''access_denied''))"
    by (simp add: refreshTokenIfNeeded_def needs_refresh_def requestAccess_def init_def
        requestAccessToken_def truthy_value_def expiring_def denied_def)
  have g: "getEvents denied 1000000 fresh
       = Some (fresh \<lparr> calls := [ListRequest ''token''] \<rparr>, Inr [])"
    by (simp add: getEvents_def refreshTokenIfNeeded_def needs_refresh_def truthy_value_def
        Let_def fresh_def denied_def)
  have n: "refreshTokenIfNeeded popup_closed 1000000 expiring = None"
    by (simp add: refreshTokenIfNeeded_def needs_refresh_def requestAccess_def init_def
        expiring_def popup_closed_def)
  show ?thesis
    using refresh_before_calendar_request [of expiring 1000000 denied standup]
      refresh_before_calendar_request [of fresh 1000000 denied standup]
      refresh_before_calendar_request [of signed_out 1000000 denied standup]
      refresh_before_calendar_request [of expiring 1000000 popup_closed standup] f g n
    by (simp add: expiring_def fresh_def signed_out_def calendar_requests_def)
qed

text \<open>
  A refresh refused by the identity service: the caller sees \<^verbatim>\<open>access_denied\<close>.
\<close>

theorem refresh_before_calendar_request_counterexample:
  "needs_refresh 1000000 expiring
   \<and> getEvents denied 1000000 expiring
       = Some (expiring \<lparr> calls := [TokenRequest] \<rparr>, Inl (Error ''access_denied''))
   \<and> Error ''access_denied'' \<noteq> Error ''authentication expired''"
  by (simp add: getEvents_def refreshTokenIfNeeded_def needs_refresh_def requestAccess_def
      init_def requestAccessToken_def truthy_value_def expiring_def denied_def)

lemma refresh_begins_fields:
  "tokenClient (refresh_begins now s) = tokenClient s
   \<and> accessToken (refresh_begins now s) = accessToken s
   \<and> tokenExpiry (refresh_begins now s) = tokenExpiry s"
  by (simp add: refresh_begins_def requestAccessToken_def)

lemma needs_refresh_cong:
  "tokenExpiry s' = tokenExpiry s \<Longrightarrow> needs_refresh now s' = needs_refresh now s"
  by (simp add: needs_refresh_def)

lemma refresh_begins_requests:
  "tokenClient s \<Longrightarrow> needs_refresh now s
     \<Longrightarrow> token_requests (refresh_begins now s) = Suc (token_requests s)"
  by (simp add: refresh_begins_def requestAccessToken_def token_requests_def)

text \<open>
  Claim C8, amended. On a service whose token client exists, callers that reach
  \<^verbatim>\<open>refreshTokenIfNeeded\<close> while a refresh is due, before a token callback has run, send
  one token request each: \<open>n\<close> callers send \<open>n\<close> requests, and token and expiry stay as
  they were until a callback runs.
\<close>

theorem overlapping_callers_each_request:
  assumes "tokenClient s" and "\<forall>now \<in> set nows. needs_refresh now s"
  shows "token_requests (overlapping_callers nows s) = token_requests s + length nows
       \<and> accessToken (overlapping_callers nows s) = accessToken s
       \<and> tokenExpiry (overlapping_callers nows s) = tokenExpiry s"
  using assms
proof (induction nows arbitrary: s)
  case Nil
  then show ?case by simp
next
  case (Cons now nows)
  let ?s = "refresh_begins now s"
  have tc: "tokenClient ?s" and at: "accessToken ?s = accessToken s"
    and te: "tokenExpiry ?s = tokenExpiry s"
    using Cons.prems(1) by (simp_all add: refresh_begins_fields)
  have "\<forall>n \<in> set nows. needs_refresh n ?s"
    using Cons.prems(2) needs_refresh_cong [OF te] by simp
  from Cons.IH [OF tc this] show ?case
    using Cons.prems refresh_begins_requests [of s now] at te by simp
qed

theorem overlapping_callers_each_request_witness:
  "tokenClient expiring \<and> needs_refresh 1000000 expiring \<and> needs_refresh 1000005 expiring
   \<and> needs_refresh 1000009 expiring
   \<and> token_requests expiring = 0
   \<and> token_requests (overlapping_callers [1000000, 1000005, 1000009] expiring) = 3"
  using overlapping_callers_each_request [of expiring "[1000000, 1000005, 1000009]"]
  by (simp add: expiring_def needs_refresh_def token_requests_def)

text \<open>Two such callers send two token requests.\<close>

theorem overlapping_callers_each_request_counterexample:
  "needs_refresh 1000000 expiring \<and> needs_refresh 1000001 expiring
   \<and> token_requests (overlapping_callers [1000000, 1000001] expiring) = 2"
  by (simp add: refresh_begins_def requestAccessToken_def needs_refresh_def
      token_requests_def expiring_def)

end
